theory Spec2Isabelle
  imports Complex_Main
begin

section \<open>Data model of \<^verbatim>\<open>src/index.js\<close>\<close>

text \<open>
  A product id is a JavaScript number or a string. The source compares ids with
  \<^verbatim>\<open>===\<close>, which never converts between the two: a number and a string are different
  whatever they hold. That is equality of the datatype below. Numbers are idealised as
  reals (no NaN, no rounding).
\<close>

datatype ident = Num real | Str string

text \<open>
  \<^verbatim>\<open>class Product { constructor(id, title, price, image) }\<close>. The fields \<^verbatim>\<open>id\<close> and
  \<^verbatim>\<open>image\<close> carry a prime because HOL has constants of these names.
\<close>

record Product =
  id' :: ident
  title :: string
  price :: real
  image' :: string

definition new_Product :: "ident \<Rightarrow> string \<Rightarrow> real \<Rightarrow> string \<Rightarrow> Product" where
  "new_Product i t p im = \<lparr>id' = i, title = t, price = p, image' = im\<rparr>"

text \<open>
  \<^verbatim>\<open>class CartItem { constructor(product, quantity = 1); get total() }\<close>. The getter
  \<^verbatim>\<open>total\<close> is \<open>total'\<close> here (HOL has a constant \<open>total\<close>). A quantity starts at 1
  and changes by \<^verbatim>\<open>++\<close> and \<^verbatim>\<open>+= delta\<close> with an integer delta, so it is an integer
  (idealised: unbounded and exact).
\<close>

record CartItem =
  product :: Product
  quantity :: int

definition total' :: "CartItem \<Rightarrow> real" where
  "total' c = price (product c) * of_int (quantity c)"

subsection \<open>The store\<close>

text \<open>
  The cart code mutates CartItem objects in place (\<^verbatim>\<open>existingItem.quantity++\<close>), pushes
  onto the array \<^verbatim>\<open>this.items\<close> in place, rebinds \<^verbatim>\<open>this.items\<close> to new arrays
  (\<^verbatim>\<open>filter\<close>, \<^verbatim>\<open>[]\<close>), and hands the live array out (\<^verbatim>\<open>getItems\<close>). So CartItem
  objects and arrays live in a store, by address; \<open>fresh\<close> is the next unused address.
  The field \<open>items\<close> is \<^verbatim>\<open>cartRepository.items\<close>, a reference to an array of references
  to CartItems. The field \<open>products\<close> is \<^verbatim>\<open>productRepository.products\<close>; that array
  and the Product objects in it are never mutated in place by the source (only rebound
  by \<^verbatim>\<open>fetchAll\<close>), so they are kept as values.
\<close>

type_synonym ref = nat

record state =
  cells :: "ref \<Rightarrow> CartItem"
  arrays :: "ref \<Rightarrow> ref list"
  fresh :: ref
  items :: ref
  products :: "Product list"

text \<open>\<^verbatim>\<open>new CartItem(product, quantity)\<close>: a new object at a new address.\<close>

definition new_CartItem :: "Product \<Rightarrow> int \<Rightarrow> state \<Rightarrow> ref \<times> state" where
  "new_CartItem p q s =
     (fresh s,
      s\<lparr>cells := (cells s)(fresh s := \<lparr>product = p, quantity = q\<rparr>),
        fresh := Suc (fresh s)\<rparr>)"

text \<open>An array literal or the result of \<^verbatim>\<open>filter\<close>: a new array at a new address.\<close>

definition new_array :: "ref list \<Rightarrow> state \<Rightarrow> ref \<times> state" where
  "new_array rs s =
     (fresh s, s\<lparr>arrays := (arrays s)(fresh s := rs), fresh := Suc (fresh s)\<rparr>)"

text \<open>
  The state after the constructors at module scope have run:
  \<^verbatim>\<open>this.products = []\<close> and \<^verbatim>\<open>this.items = []\<close>. Addresses that hold no object yet
  read as a blank item; nothing below reads them.
\<close>

definition blank :: CartItem where
  "blank = \<lparr>product = new_Product (Num 0) [] 0 [], quantity = 0\<rparr>"

definition init :: state where
  "init = \<lparr>cells = (\<lambda>_. blank), arrays = (\<lambda>_. []), fresh = 1, items = 0, products = []\<rparr>"

section \<open>CartRepository\<close>

text \<open>
  \<^verbatim>\<open>addItem(cartItem)\<close>: \<^verbatim>\<open>find\<close> returns the first item whose product id is strictly
  equal to the new item's; an object is truthy, so the test is whether one was found.
\<close>

definition addItem :: "ref \<Rightarrow> state \<Rightarrow> state" where
  "addItem cartItem s =
     (case find (\<lambda>item. id' (product (cells s item)) = id' (product (cells s cartItem)))
             (arrays s (items s)) of
        Some existingItem \<Rightarrow>
          s\<lparr>cells := (cells s)(existingItem :=
               (cells s existingItem)\<lparr>quantity := quantity (cells s existingItem) + 1\<rparr>)\<rparr>
      | None \<Rightarrow>
          s\<lparr>arrays := (arrays s)(items s := arrays s (items s) @ [cartItem])\<rparr>)"

text \<open>\<^verbatim>\<open>removeItem(productId)\<close>: \<^verbatim>\<open>this.items\<close> is rebound to the filtered copy.\<close>

definition removeItem :: "ident \<Rightarrow> state \<Rightarrow> state" where
  "removeItem productId s =
     (let (a, s') = new_array
            (filter (\<lambda>item. id' (product (cells s item)) \<noteq> productId) (arrays s (items s))) s
      in s'\<lparr>items := a\<rparr>)"

text \<open>\<^verbatim>\<open>updateQuantity(productId, delta)\<close>.\<close>

definition updateQuantity :: "ident \<Rightarrow> int \<Rightarrow> state \<Rightarrow> state" where
  "updateQuantity productId delta s =
     (case find (\<lambda>item. id' (product (cells s item)) = productId) (arrays s (items s)) of
        Some item \<Rightarrow>
          (let s' = s\<lparr>cells := (cells s)(item :=
                      (cells s item)\<lparr>quantity := quantity (cells s item) + delta\<rparr>)\<rparr>
           in if quantity (cells s' item) \<le> 0 then removeItem productId s' else s')
      | None \<Rightarrow> s)"

text \<open>\<^verbatim>\<open>getItems()\<close> returns the reference held in \<^verbatim>\<open>this.items\<close>, not a copy.\<close>

definition getItems :: "state \<Rightarrow> ref" where
  "getItems s = items s"

text \<open>\<^verbatim>\<open>reduce\<close> folds from the left, starting at 0.\<close>

definition getTotal :: "state \<Rightarrow> real" where
  "getTotal s = foldl (\<lambda>sum item. sum + total' (cells s item)) 0 (arrays s (items s))"

definition getItemCount :: "state \<Rightarrow> int" where
  "getItemCount s = foldl (\<lambda>count item. count + quantity (cells s item)) 0 (arrays s (items s))"

text \<open>\<^verbatim>\<open>clear()\<close>: \<^verbatim>\<open>this.items = []\<close> rebinds the field; the old array is not touched.\<close>

definition clear :: "state \<Rightarrow> state" where
  "clear s = (let (a, s') = new_array [] s in s'\<lparr>items := a\<rparr>)"

subsection \<open>Reading an array of items\<close>

text \<open>
  What a holder of the array reference \<open>r\<close> sees in state \<open>s\<close>: the CartItem objects of
  the array, in order. \<open>lines s\<close> is what the caller of \<^verbatim>\<open>getItems()\<close> sees.
\<close>

definition contents :: "ref \<Rightarrow> state \<Rightarrow> CartItem list" where
  "contents r s = map (cells s) (arrays s r)"

definition lines :: "state \<Rightarrow> CartItem list" where
  "lines s = contents (getItems s) s"

section \<open>ProductRepository\<close>

text \<open>
  What the remote source answers. \<^verbatim>\<open>fetch\<close> may reject; \<^verbatim>\<open>response.json()\<close> may
  reject (the body is not JSON); otherwise \<^verbatim>\<open>data\<close> is a JSON value. The source calls
  \<^verbatim>\<open>data.map\<close>, which raises a TypeError unless \<^verbatim>\<open>data\<close> is an array, and reads
  \<^verbatim>\<open>p.id\<close> of each element, which raises a TypeError on \<^verbatim>\<open>null\<close>. Elements other than
  \<^verbatim>\<open>null\<close> are records with the four fields the source reads, typed as the remote
  interface gives them. An element that lacks a field, or is a number or a string, raises
  nothing in the source (the Product gets \<^verbatim>\<open>undefined\<close> fields); such elements are not
  values of the types below. The error of a rejected promise is the reason it gives, kept
  as a string; the TypeError raised by the engine is kept without its message.
\<close>

datatype js_error = Rejected string | TypeError | FetchError js_error

text \<open>
  The third constructor is the error the specification names: an error of a class
  FetchError that holds its cause. The source declares no such class and no path of it
  builds such a value; the constructor is here so that the specification's sentence on a
  failed fetch can be stated and compared with what \<^verbatim>\<open>fetchAll\<close> throws.
\<close>

fun is_FetchError :: "js_error \<Rightarrow> bool" where
  "is_FetchError (FetchError cause) = True"
| "is_FetchError (Rejected reason) = False"
| "is_FetchError TypeError = False"

text \<open>
  The specification's words, "the call fails with a FetchError carrying the underlying
  cause", as a predicate on the outcome of a call and the cause.
\<close>

definition fails_with_FetchError :: "js_error + 'a \<Rightarrow> js_error \<Rightarrow> bool" where
  "fails_with_FetchError outcome cause \<longleftrightarrow> outcome = Inl (FetchError cause)"

record raw =
  raw_id :: ident
  raw_title :: string
  raw_price :: real
  raw_image :: string

datatype json_elem = JNull | JObject raw

datatype json_data = NotArray | JArray "json_elem list"

datatype remote = FetchRejects string | JsonRejects string | Parsed json_data

text \<open>
  The arrow function \<^verbatim>\<open>p => new Product(p.id, p.title, p.price, p.image)\<close> on a record,
  and \<^verbatim>\<open>data.map\<close> of it over an array: the first \<^verbatim>\<open>null\<close> element raises, and no
  array is returned.
\<close>

definition product_of :: "raw \<Rightarrow> Product" where
  "product_of p = new_Product (raw_id p) (raw_title p) (raw_price p) (raw_image p)"

fun map_new_Product :: "json_elem list \<Rightarrow> js_error + Product list" where
  "map_new_Product [] = Inr []"
| "map_new_Product (JNull # ps) = Inl TypeError"
| "map_new_Product (JObject p # ps) =
     (case map_new_Product ps of
        Inl e \<Rightarrow> Inl e
      | Inr xs \<Rightarrow> Inr (product_of p # xs))"

text \<open>
  The body of the \<^verbatim>\<open>try\<close> block: the first failure leaves it, and the assignment to
  \<^verbatim>\<open>this.products\<close> is its last step but one.
\<close>

definition fetchAll_try :: "remote \<Rightarrow> state \<Rightarrow> js_error + (Product list \<times> state)" where
  "fetchAll_try r s =
     (case r of
        FetchRejects e \<Rightarrow> Inl (Rejected e)
      | JsonRejects e \<Rightarrow> Inl (Rejected e)
      | Parsed data \<Rightarrow>
          (case data of
             NotArray \<Rightarrow> Inl TypeError
           | JArray ps \<Rightarrow>
               (case map_new_Product ps of
                  Inl e \<Rightarrow> Inl e
                | Inr xs \<Rightarrow> (let s' = s\<lparr>products := xs\<rparr> in Inr (products s', s')))))"

text \<open>
  \<^verbatim>\<open>fetchAll()\<close>: the \<^verbatim>\<open>catch\<close> clause logs and throws the error it caught. The state
  it leaves is the one at the throw, which is \<open>s\<close>: no step of the block before the
  assignment writes to the state.
\<close>

definition fetchAll :: "remote \<Rightarrow> state \<Rightarrow> (js_error + Product list) \<times> state" where
  "fetchAll r s =
     (case fetchAll_try r s of
        Inl error \<Rightarrow> (Inl error, s)
      | Inr (result, s') \<Rightarrow> (Inr result, s'))"

text \<open>\<^verbatim>\<open>getById(id)\<close>: \<^verbatim>\<open>find\<close> gives \<^verbatim>\<open>undefined\<close> (here \<open>None\<close>) when nothing matches.\<close>

definition getById :: "ident \<Rightarrow> state \<Rightarrow> Product option" where
  "getById i s = find (\<lambda>p. id' p = i) (products s)"

section \<open>ShoppingCartUseCase\<close>

definition getProducts :: "remote \<Rightarrow> state \<Rightarrow> (js_error + Product list) \<times> state" where
  "getProducts r s = fetchAll r s"

text \<open>
  \<^verbatim>\<open>this.cartRepository.addItem(new CartItem(product))\<close>: the constructor's default
  gives the new item quantity 1.
\<close>

definition addItem_new :: "Product \<Rightarrow> state \<Rightarrow> state" where
  "addItem_new p s = (let (c, s') = new_CartItem p 1 s in addItem c s')"

definition addToCart :: "ident \<Rightarrow> state \<Rightarrow> state" where
  "addToCart productId s =
     (case getById productId s of
        Some p \<Rightarrow> addItem_new p s
      | None \<Rightarrow> s)"

definition removeFromCart :: "ident \<Rightarrow> state \<Rightarrow> state" where
  "removeFromCart productId s = removeItem productId s"

definition changeQuantity :: "ident \<Rightarrow> int \<Rightarrow> state \<Rightarrow> state" where
  "changeQuantity productId delta s = updateQuantity productId delta s"

definition getCartItems :: "state \<Rightarrow> ref" where
  "getCartItems s = getItems s"

definition getCartTotal :: "state \<Rightarrow> real" where
  "getCartTotal s = getTotal s"

definition getCartItemCount :: "state \<Rightarrow> int" where
  "getCartItemCount s = getItemCount s"

text \<open>\<^verbatim>\<open>checkout()\<close>: read the reference, read the total, clear, return both.\<close>

definition checkout :: "state \<Rightarrow> (ref \<times> real) \<times> state" where
  "checkout s =
     (let its = getItems s;
          tot = getTotal s;
          s' = clear s
      in ((its, tot), s'))"

section \<open>States the code can be in, and runs of operations\<close>

text \<open>
  A state is well formed when \<^verbatim>\<open>this.items\<close> and the items of its array are addresses
  already handed out, and no CartItem object occurs twice in the array. The initial
  state is well formed and every operation keeps states well formed (lemmas \<open>wf_init\<close>
  and \<open>wf_step\<close> below), so these are the states the program reaches.
\<close>

definition wf_state :: "state \<Rightarrow> bool" where
  "wf_state s \<longleftrightarrow>
     items s < fresh s
     \<and> (\<forall>r\<in>set (arrays s (items s)). r < fresh s)
     \<and> distinct (arrays s (items s))"

text \<open>The cart's invariant: lines are unique by product id, and each holds at least one unit.\<close>

definition cart_inv :: "state \<Rightarrow> bool" where
  "cart_inv s \<longleftrightarrow>
     distinct (map (\<lambda>l. id' (product l)) (lines s))
     \<and> (\<forall>l\<in>set (lines s). 1 \<le> quantity l)"

text \<open>
  The calls a client can make, and a run of them. \<open>AddItem p\<close> is the cart's own
  operation on a product, \<^verbatim>\<open>addItem(new CartItem(p))\<close>; the others are the methods of
  the use case and of the cart repository of the same names.
\<close>

datatype op =
    AddItem Product
  | AddToCart ident
  | RemoveItem ident
  | AdjustQuantity ident int
  | Clear
  | Checkout
  | GetProducts remote

fun step :: "op \<Rightarrow> state \<Rightarrow> state" where
  "step (AddItem p) s = addItem_new p s"
| "step (AddToCart i) s = addToCart i s"
| "step (RemoveItem i) s = removeFromCart i s"
| "step (AdjustQuantity i d) s = changeQuantity i d s"
| "step Clear s = clear s"
| "step Checkout s = snd (checkout s)"
| "step (GetProducts r) s = snd (getProducts r s)"

fun run :: "op list \<Rightarrow> state \<Rightarrow> state" where
  "run [] s = s"
| "run (x # xs) s = run xs (step x s)"

text \<open>
  An array the cart has let go of: its address is in use, it is not \<^verbatim>\<open>this.items\<close>, and
  it shares no CartItem object with \<^verbatim>\<open>this.items\<close>.
\<close>

definition detached :: "ref \<Rightarrow> state \<Rightarrow> bool" where
  "detached r s \<longleftrightarrow>
     r < fresh s \<and> r \<noteq> items s
     \<and> (\<forall>x\<in>set (arrays s r). x < fresh s \<and> x \<notin> set (arrays s (items s)))"

subsection \<open>Example data\<close>

text \<open>Two products: id 1 at price 10 and id 2 at price 5.\<close>

definition mug :: Product where
  "mug = new_Product (Num 1) ''Mug'' 10 ''mug.png''"

definition pen :: Product where
  "pen = new_Product (Num 2) ''Pen'' 5 ''pen.png''"

text \<open>A remote catalog of these two products, and the state after one successful fetch of it.\<close>

definition catalog :: "json_elem list" where
  "catalog =
     [JObject \<lparr>raw_id = Num 1, raw_title = ''Mug'', raw_price = 10, raw_image = ''mug.png''\<rparr>,
      JObject \<lparr>raw_id = Num 2, raw_title = ''Pen'', raw_price = 5, raw_image = ''pen.png''\<rparr>]"

definition shop :: state where
  "shop = snd (getProducts (Parsed (JArray catalog)) init)"

section \<open>Lists of references\<close>

lemma find_first_split:
  "find P xs = Some x \<Longrightarrow> \<exists>ys zs. xs = ys @ x # zs \<and> P x \<and> (\<forall>y\<in>set ys. \<not> P y)"
proof (induction xs)
  case Nil
  then show ?case by simp
next
  case (Cons a xs)
  show ?case
  proof (cases "P a")
    case True
    with Cons.prems have "a = x" by simp
    with True have "a # xs = [] @ x # xs \<and> P x \<and> (\<forall>y\<in>set []. \<not> P y)" by simp
    then show ?thesis by blast
  next
    case False
    with Cons.prems have "find P xs = Some x" by simp
    from Cons.IH [OF this] obtain ys zs
      where "xs = ys @ x # zs" "P x" "\<forall>y\<in>set ys. \<not> P y" by blast
    with False have "a # xs = (a # ys) @ x # zs \<and> P x \<and> (\<forall>y\<in>set (a # ys). \<not> P y)" by simp
    then show ?thesis by blast
  qed
qed

lemma find_past_misses:
  "\<forall>y\<in>set ys. \<not> P y \<Longrightarrow> P x \<Longrightarrow> find P (ys @ x # zs) = Some x"
  by (induction ys) simp_all

lemma find_none_misses: "find P xs = None \<longleftrightarrow> (\<forall>x\<in>set xs. \<not> P x)"
  by (induction xs) simp_all

lemma map_split_refs:
  assumes "map f rs = pre @ l # post"
  shows "\<exists>rs1 e rs2. rs = rs1 @ e # rs2 \<and> map f rs1 = pre \<and> f e = l \<and> map f rs2 = post"
proof -
  from assms obtain rs1 rest where a: "rs = rs1 @ rest" "map f rs1 = pre" "map f rest = l # post"
    by (auto simp: map_eq_append_conv)
  from a(3) obtain e rs2 where "rest = e # rs2" "f e = l" "map f rs2 = post"
    by (auto simp: map_eq_Cons_conv)
  with a show ?thesis by blast
qed

lemma map_upd_distinct:
  "distinct (rs1 @ e # rs2) \<Longrightarrow>
   map (f(e := v)) (rs1 @ e # rs2) = map f rs1 @ v # map f rs2"
  by auto

text \<open>The first line with a given id, seen through the references.\<close>

lemma first_line_ref:
  assumes "map f rs = pre @ l # post" and "P l" and "\<forall>x\<in>set pre. \<not> P x"
  shows "\<exists>rs1 e rs2. rs = rs1 @ e # rs2 \<and> map f rs1 = pre \<and> f e = l \<and> map f rs2 = post
           \<and> find (\<lambda>r. P (f r)) rs = Some e"
proof -
  from map_split_refs [OF assms(1)] obtain rs1 e rs2
    where d: "rs = rs1 @ e # rs2" "map f rs1 = pre" "f e = l" "map f rs2 = post" by blast
  from d(2) assms(3) have "\<forall>r\<in>set rs1. \<not> P (f r)" by auto
  moreover from d(3) assms(2) have "P (f e)" by simp
  ultimately have "find (\<lambda>r. P (f r)) (rs1 @ e # rs2) = Some e"
    by (rule find_past_misses)
  with d show ?thesis by blast
qed

subsection \<open>addItem\<close>

lemma addItem_new_unfold:
  "addItem_new p s =
     addItem (fresh s)
       (s\<lparr>cells := (cells s)(fresh s := \<lparr>product = p, quantity = 1\<rparr>), fresh := Suc (fresh s)\<rparr>)"
  by (simp add: addItem_new_def new_CartItem_def)

lemma find_new_item:
  assumes "wf_state s"
  shows "find (\<lambda>item. id' (product (((cells s)(fresh s := c)) item)) = i) (arrays s (items s))
         = find (\<lambda>item. id' (product (cells s item)) = i) (arrays s (items s))"
  using assms by (intro find_cong) (auto simp: wf_state_def)

lemma lines_addItem_new_absent:
  assumes "wf_state s" and "\<forall>l\<in>set (lines s). id' (product l) \<noteq> id' p"
  shows "lines (addItem_new p s) = lines s @ [\<lparr>product = p, quantity = 1\<rparr>]"
proof -
  let ?rs = "arrays s (items s)"
  from assms(2) have "\<forall>r\<in>set ?rs. \<not> id' (product (cells s r)) = id' p"
    by (simp add: lines_def contents_def getItems_def)
  then have "find (\<lambda>item. id' (product (cells s item)) = id' p) ?rs = None"
    by (simp add: find_none_misses)
  with find_new_item [OF assms(1)]
  have f: "find (\<lambda>item. id' (product (((cells s)(fresh s := \<lparr>product = p, quantity = 1\<rparr>)) item)) = id' p) ?rs = None"
    by simp
  from assms(1) have "fresh s \<notin> set ?rs" by (auto simp: wf_state_def)
  then have "map ((cells s)(fresh s := \<lparr>product = p, quantity = 1\<rparr>)) ?rs = map (cells s) ?rs"
    by simp
  with f show ?thesis
    by (simp add: addItem_new_unfold addItem_def lines_def contents_def getItems_def)
qed

lemma lines_addItem_new_present:
  assumes "wf_state s" and "lines s = pre @ l # post" and "id' (product l) = id' p"
    and "\<forall>x\<in>set pre. id' (product x) \<noteq> id' p"
  shows "lines (addItem_new p s) = pre @ l\<lparr>quantity := quantity l + 1\<rparr> # post"
proof -
  let ?rs = "arrays s (items s)"
  let ?c = "(cells s)(fresh s := \<lparr>product = p, quantity = 1\<rparr>)"
  from assms(2) have "map (cells s) ?rs = pre @ l # post"
    by (simp add: lines_def contents_def getItems_def)
  from first_line_ref [where P = "\<lambda>l. id' (product l) = id' p", OF this assms(3)] assms(4)
  obtain rs1 e rs2 where d: "?rs = rs1 @ e # rs2" "map (cells s) rs1 = pre" "cells s e = l"
    "map (cells s) rs2 = post"
    "find (\<lambda>r. id' (product (cells s r)) = id' p) ?rs = Some e" by blast
  with find_new_item [OF assms(1)]
  have f: "find (\<lambda>item. id' (product (?c item)) = id' p) ?rs = Some e" by simp
  from assms(1) d(1) have ne: "e \<noteq> fresh s" "fresh s \<notin> set rs1" "fresh s \<notin> set rs2"
    and dist: "distinct (rs1 @ e # rs2)"
    by (auto simp: wf_state_def)
  from ne have ce: "?c e = l" using d(3) by simp
  have r1: "map ?c rs1 = pre" using ne d(2) by simp
  have r2: "map ?c rs2 = post" using ne d(4) by simp
  have m: "map (?c(e := l\<lparr>quantity := quantity l + 1\<rparr>)) ?rs
        = pre @ l\<lparr>quantity := quantity l + 1\<rparr> # post"
    by (simp only: d(1) map_upd_distinct [OF dist] r1 r2)
  have "lines (addItem_new p s) = map (?c(e := (?c e)\<lparr>quantity := quantity (?c e) + 1\<rparr>)) ?rs"
    using f by (simp add: addItem_new_unfold addItem_def lines_def contents_def getItems_def)
  with m ce show ?thesis by simp
qed

lemma wf_addItem_new: "wf_state s \<Longrightarrow> wf_state (addItem_new p s)"
proof -
  assume w: "wf_state s"
  let ?rs = "arrays s (items s)"
  let ?c = "(cells s)(fresh s := \<lparr>product = p, quantity = 1\<rparr>)"
  from w have nin: "fresh s \<notin> set ?rs" by (auto simp: wf_state_def)
  show ?thesis
  proof (cases "find (\<lambda>item. id' (product (?c item)) = id' p) ?rs")
    case None
    with w nin show ?thesis
      by (auto simp: addItem_new_unfold addItem_def wf_state_def less_Suc_eq)
  next
    case (Some e)
    with w show ?thesis
      by (auto simp: addItem_new_unfold addItem_def wf_state_def less_Suc_eq)
  qed
qed


subsection \<open>removeItem, clear\<close>

lemma lines_removeItem:
  "lines (removeItem i s) = filter (\<lambda>l. id' (product l) \<noteq> i) (lines s)"
  by (simp add: removeItem_def new_array_def lines_def contents_def getItems_def
      filter_map comp_def)

lemma wf_removeItem: "wf_state s \<Longrightarrow> wf_state (removeItem i s)"
  by (auto simp: removeItem_def new_array_def wf_state_def less_Suc_eq)

lemma lines_clear: "lines (clear s) = []"
  by (simp add: clear_def new_array_def lines_def contents_def getItems_def)

lemma wf_clear: "wf_state s \<Longrightarrow> wf_state (clear s)"
  by (simp add: clear_def new_array_def wf_state_def)

subsection \<open>updateQuantity\<close>

lemma updateQuantity_absent:
  assumes "\<forall>l\<in>set (lines s). id' (product l) \<noteq> i"
  shows "updateQuantity i d s = s"
proof -
  from assms have "\<forall>r\<in>set (arrays s (items s)). \<not> id' (product (cells s r)) = i"
    by (simp add: lines_def contents_def getItems_def)
  then have "find (\<lambda>item. id' (product (cells s item)) = i) (arrays s (items s)) = None"
    by (simp add: find_none_misses)
  then show ?thesis by (simp add: updateQuantity_def)
qed

lemma lines_updateQuantity_present:
  assumes "wf_state s" and "lines s = pre @ l # post" and "id' (product l) = i"
    and "\<forall>x\<in>set pre. id' (product x) \<noteq> i"
  shows "lines (updateQuantity i d s) =
           (if quantity l + d \<le> 0 then pre @ filter (\<lambda>x. id' (product x) \<noteq> i) post
            else pre @ l\<lparr>quantity := quantity l + d\<rparr> # post)"
proof -
  let ?rs = "arrays s (items s)"
  let ?l' = "l\<lparr>quantity := quantity l + d\<rparr>"
  from assms(2) have "map (cells s) ?rs = pre @ l # post"
    by (simp add: lines_def contents_def getItems_def)
  from first_line_ref [where P = "\<lambda>l. id' (product l) = i", OF this assms(3)] assms(4)
  obtain rs1 e rs2 where d: "?rs = rs1 @ e # rs2" "map (cells s) rs1 = pre" "cells s e = l"
    "map (cells s) rs2 = post"
    "find (\<lambda>r. id' (product (cells s r)) = i) ?rs = Some e" by blast
  from assms(1) d(1) have dist: "distinct (rs1 @ e # rs2)" by (simp add: wf_state_def)
  let ?s' = "s\<lparr>cells := (cells s)(e := ?l')\<rparr>"
  have "map ((cells s)(e := ?l')) ?rs = pre @ ?l' # post"
    by (simp only: d(1) map_upd_distinct [OF dist] d(2) d(4))
  then have m: "lines ?s' = pre @ ?l' # post"
    by (simp add: lines_def contents_def getItems_def)
  have u: "updateQuantity i d s = (if quantity l + d \<le> 0 then removeItem i ?s' else ?s')"
    using d(5) d(3) by (simp add: updateQuantity_def Let_def)
  show ?thesis
  proof (cases "quantity l + d \<le> 0")
    case True
    have "filter (\<lambda>x. id' (product x) \<noteq> i) pre = pre"
      using assms(4) by (simp add: filter_id_conv)
    with True u m assms(3) show ?thesis
      by (simp add: lines_removeItem)
  next
    case False
    with u m show ?thesis by simp
  qed
qed

lemma wf_updateQuantity: "wf_state s \<Longrightarrow> wf_state (updateQuantity i d s)"
proof -
  assume w: "wf_state s"
  show ?thesis
  proof (cases "find (\<lambda>item. id' (product (cells s item)) = i) (arrays s (items s))")
    case None
    with w show ?thesis by (simp add: updateQuantity_def)
  next
    case (Some e)
    let ?s' = "s\<lparr>cells := (cells s)(e := (cells s e)\<lparr>quantity := quantity (cells s e) + d\<rparr>)\<rparr>"
    from w have "wf_state ?s'" by (simp add: wf_state_def)
    then have "wf_state (removeItem i ?s')" by (rule wf_removeItem)
    with Some \<open>wf_state ?s'\<close> show ?thesis
      by (simp add: updateQuantity_def Let_def)
  qed
qed

section \<open>Well-formedness and the cart invariant are kept\<close>

lemma lines_init: "lines init = []"
  by (simp add: init_def lines_def contents_def getItems_def)

lemma wf_init: "wf_state init"
  by (simp add: wf_state_def init_def)

lemma fetchAll_cart:
  "cells (snd (fetchAll r s)) = cells s \<and> arrays (snd (fetchAll r s)) = arrays s
   \<and> fresh (snd (fetchAll r s)) = fresh s \<and> items (snd (fetchAll r s)) = items s"
  by (simp add: fetchAll_def fetchAll_try_def Let_def
      split: remote.splits json_data.splits sum.splits)

lemma lines_fetchAll: "lines (snd (fetchAll r s)) = lines s"
  by (simp add: lines_def contents_def getItems_def fetchAll_cart)

lemma wf_fetchAll: "wf_state s \<Longrightarrow> wf_state (snd (fetchAll r s))"
  by (simp add: wf_state_def fetchAll_cart)

lemma wf_step: "wf_state s \<Longrightarrow> wf_state (step x s)"
  by (cases x)
    (simp_all add: wf_addItem_new wf_removeItem wf_updateQuantity wf_clear wf_fetchAll
      addToCart_def removeFromCart_def changeQuantity_def checkout_def getProducts_def
      Let_def split: option.splits)

lemma wf_run: "wf_state s \<Longrightarrow> wf_state (run xs s)"
  by (induction xs arbitrary: s) (simp_all add: wf_step)

text \<open>Either no line has the id, or there is a first one.\<close>

lemma first_line_cases:
  "(\<forall>l\<in>set ls. id' (product l) \<noteq> i)
   \<or> (\<exists>pre l post. ls = pre @ l # post \<and> id' (product l) = i
         \<and> (\<forall>x\<in>set pre. id' (product x) \<noteq> i))"
proof (cases "\<exists>l\<in>set ls. id' (product l) = i")
  case True
  from split_list_first_prop [OF this] show ?thesis by blast
next
  case False
  then show ?thesis by blast
qed

lemma cart_inv_addItem_new:
  assumes "wf_state s" and "cart_inv s"
  shows "cart_inv (addItem_new p s)"
proof -
  from first_line_cases [of "lines s" "id' p"] show ?thesis
  proof
    assume a: "\<forall>l\<in>set (lines s). id' (product l) \<noteq> id' p"
    from lines_addItem_new_absent [OF assms(1) a] assms(2) a show ?thesis
      by (auto simp: cart_inv_def)
  next
    assume "\<exists>pre l post. lines s = pre @ l # post \<and> id' (product l) = id' p
         \<and> (\<forall>x\<in>set pre. id' (product x) \<noteq> id' p)"
    then obtain pre l post where d: "lines s = pre @ l # post" "id' (product l) = id' p"
      "\<forall>x\<in>set pre. id' (product x) \<noteq> id' p" by blast
    from lines_addItem_new_present [OF assms(1) d] assms(2) d(1) show ?thesis
      by (auto simp: cart_inv_def)
  qed
qed

lemma cart_inv_removeItem: "cart_inv s \<Longrightarrow> cart_inv (removeItem i s)"
  by (auto simp: cart_inv_def lines_removeItem distinct_map_filter)

lemma cart_inv_clear: "cart_inv (clear s)"
  by (simp add: cart_inv_def lines_clear)

lemma cart_inv_updateQuantity:
  assumes "wf_state s" and "cart_inv s"
  shows "cart_inv (updateQuantity i d s)"
proof -
  from first_line_cases [of "lines s" i] show ?thesis
  proof
    assume "\<forall>l\<in>set (lines s). id' (product l) \<noteq> i"
    from updateQuantity_absent [OF this] assms(2) show ?thesis by simp
  next
    assume "\<exists>pre l post. lines s = pre @ l # post \<and> id' (product l) = i
         \<and> (\<forall>x\<in>set pre. id' (product x) \<noteq> i)"
    then obtain pre l post where d: "lines s = pre @ l # post" "id' (product l) = i"
      "\<forall>x\<in>set pre. id' (product x) \<noteq> i" by blast
    have dm: "distinct (map (\<lambda>l. id' (product l)) (pre @ l # post))"
      and q: "\<forall>x\<in>set (pre @ l # post). 1 \<le> quantity x"
      using assms(2) d(1) by (simp_all add: cart_inv_def)
    show ?thesis
    proof (cases "quantity l + d \<le> 0")
      case True
      with lines_updateQuantity_present [OF assms(1) d]
      have "lines (updateQuantity i d s) = pre @ filter (\<lambda>x. id' (product x) \<noteq> i) post"
        by simp
      with dm q show ?thesis
        by (auto simp: cart_inv_def distinct_map_filter)
    next
      case False
      with lines_updateQuantity_present [OF assms(1) d]
      have "lines (updateQuantity i d s) = pre @ l\<lparr>quantity := quantity l + d\<rparr> # post"
        by simp
      with dm q False show ?thesis
        by (auto simp: cart_inv_def)
    qed
  qed
qed

lemma cart_inv_step: "wf_state s \<Longrightarrow> cart_inv s \<Longrightarrow> cart_inv (step x s)"
proof (cases x)
  case (GetProducts r)
  assume "cart_inv s"
  with GetProducts show ?thesis
    by (simp add: cart_inv_def getProducts_def lines_fetchAll)
qed (simp_all add: cart_inv_addItem_new cart_inv_removeItem cart_inv_updateQuantity
      cart_inv_clear addToCart_def removeFromCart_def changeQuantity_def checkout_def
      Let_def split: option.splits)

lemma cart_inv_run: "wf_state s \<Longrightarrow> cart_inv s \<Longrightarrow> cart_inv (run xs s)"
  by (induction xs arbitrary: s) (simp_all add: wf_step cart_inv_step)

lemma cart_inv_empty: "lines s = [] \<Longrightarrow> cart_inv s"
  by (simp add: cart_inv_def)

section \<open>Totals\<close>

lemma foldl_plus_sum_list:
  fixes a :: "'a::comm_monoid_add"
  shows "foldl (\<lambda>acc x. acc + f x) a xs = a + sum_list (map f xs)"
  by (induction xs arbitrary: a) (simp_all add: add.assoc)

lemma getTotal_lines: "getTotal s = sum_list (map total' (lines s))"
  by (simp add: getTotal_def lines_def contents_def getItems_def foldl_plus_sum_list comp_def)

lemma getItemCount_lines: "getItemCount s = sum_list (map quantity (lines s))"
  by (simp add: getItemCount_def lines_def contents_def getItems_def foldl_plus_sum_list comp_def)

lemma lines_two_mugs_one_pen:
  "lines (run [AddItem mug, AddItem mug, AddItem pen] init) =
     [\<lparr>product = mug, quantity = 2\<rparr>, \<lparr>product = pen, quantity = 1\<rparr>]"
  by (simp add: init_def addItem_new_def new_CartItem_def addItem_def lines_def contents_def
      getItems_def mug_def pen_def new_Product_def)

text \<open>
  C5. In every state, \<^verbatim>\<open>getTotal()\<close> is the sum over the current lines of price times
  quantity, and \<^verbatim>\<open>getItemCount()\<close> is the sum of the quantities of the lines (units, not
  the number of lines); on an empty cart both are 0.
\<close>

theorem totals_are_sums:
  "getTotal s = sum_list (map (\<lambda>l. price (product l) * of_int (quantity l)) (lines s))
   \<and> getItemCount s = sum_list (map quantity (lines s))
   \<and> (lines s = [] \<longrightarrow> getTotal s = 0 \<and> getItemCount s = 0)"
  by (simp add: getTotal_lines getItemCount_lines total'_def [abs_def])

theorem totals_are_sums_witness:
  "lines init = [] \<and> getTotal init = 0 \<and> getItemCount init = 0
   \<and> getTotal (run [AddItem mug, AddItem mug, AddItem pen] init) = 25
   \<and> getItemCount (run [AddItem mug, AddItem mug, AddItem pen] init) = 3"
proof -
  have e: "lines init = []" by (rule lines_init)
  from totals_are_sums [of init] e have "getTotal init = 0 \<and> getItemCount init = 0" by blast
  moreover from totals_are_sums [of "run [AddItem mug, AddItem mug, AddItem pen] init"]
  have "getTotal (run [AddItem mug, AddItem mug, AddItem pen] init)
          = sum_list (map (\<lambda>l. price (product l) * of_int (quantity l))
              [\<lparr>product = mug, quantity = 2\<rparr>, \<lparr>product = pen, quantity = 1\<rparr>])
     \<and> getItemCount (run [AddItem mug, AddItem mug, AddItem pen] init)
          = sum_list (map quantity
              [\<lparr>product = mug, quantity = 2\<rparr>, \<lparr>product = pen, quantity = 1\<rparr>])"
    by (simp only: lines_two_mugs_one_pen)
  then have "getTotal (run [AddItem mug, AddItem mug, AddItem pen] init) = 25
     \<and> getItemCount (run [AddItem mug, AddItem mug, AddItem pen] init) = 3"
    by (simp add: mug_def pen_def new_Product_def)
  ultimately show ?thesis using e by simp
qed

section \<open>Checkout\<close>

lemma find_Some_in_set: "find P xs = Some x \<Longrightarrow> x \<in> set xs"
  by (induction xs) (auto split: if_splits)

lemma detached_addItem_new:
  assumes "detached r s"
  shows "detached r (addItem_new p s) \<and> contents r (addItem_new p s) = contents r s"
proof (cases "find (\<lambda>item. id' (product (((cells s)(fresh s := \<lparr>product = p, quantity = 1\<rparr>)) item)) = id' p)
               (arrays s (items s))")
  case None
  with assms show ?thesis
    by (auto simp: addItem_new_unfold addItem_def detached_def contents_def less_Suc_eq)
next
  case (Some e)
  then have "e \<in> set (arrays s (items s))" by (rule find_Some_in_set)
  with assms Some show ?thesis
    by (auto simp: addItem_new_unfold addItem_def detached_def contents_def less_Suc_eq)
qed

lemma detached_removeItem:
  assumes "detached r s"
  shows "detached r (removeItem i s) \<and> contents r (removeItem i s) = contents r s"
  using assms
  by (auto simp: removeItem_def new_array_def detached_def contents_def less_Suc_eq)

lemma detached_clear:
  assumes "detached r s"
  shows "detached r (clear s) \<and> contents r (clear s) = contents r s"
  using assms
  by (auto simp: clear_def new_array_def detached_def contents_def less_Suc_eq)

lemma detached_updateQuantity:
  assumes "detached r s"
  shows "detached r (updateQuantity i d s) \<and> contents r (updateQuantity i d s) = contents r s"
proof (cases "find (\<lambda>item. id' (product (cells s item)) = i) (arrays s (items s))")
  case None
  with assms show ?thesis by (simp add: updateQuantity_def)
next
  case (Some e)
  let ?s' = "s\<lparr>cells := (cells s)(e := (cells s e)\<lparr>quantity := quantity (cells s e) + d\<rparr>)\<rparr>"
  from Some have "e \<in> set (arrays s (items s))" by (rule find_Some_in_set)
  with assms have a: "detached r ?s' \<and> contents r ?s' = contents r s"
    by (auto simp: detached_def contents_def)
  with detached_removeItem [of r ?s' i]
  have "detached r (removeItem i ?s') \<and> contents r (removeItem i ?s') = contents r s"
    by simp
  with a Some show ?thesis by (simp add: updateQuantity_def Let_def)
qed

lemma detached_fetchAll:
  assumes "detached r s"
  shows "detached r (snd (fetchAll x s)) \<and> contents r (snd (fetchAll x s)) = contents r s"
  using assms by (simp add: detached_def contents_def fetchAll_cart)

lemma detached_step:
  assumes "detached r s"
  shows "detached r (step x s) \<and> contents r (step x s) = contents r s"
proof (cases x)
  case (AddToCart i)
  with assms detached_addItem_new [OF assms] show ?thesis
    by (simp add: addToCart_def split: option.splits)
qed (simp_all add: assms detached_addItem_new detached_removeItem detached_updateQuantity
      detached_clear detached_fetchAll removeFromCart_def changeQuantity_def checkout_def
      getProducts_def Let_def)

lemma detached_run:
  "detached r s \<Longrightarrow> contents r (run xs s) = contents r s"
proof (induction xs arbitrary: s)
  case Nil
  then show ?case by simp
next
  case (Cons x xs)
  from detached_step [OF Cons.prems, of x]
  have "detached r (step x s)" and "contents r (step x s) = contents r s" by simp_all
  with Cons.IH [of "step x s"] show ?case by simp
qed

lemma detached_after_clear: "wf_state s \<Longrightarrow> detached (items s) (clear s)"
  by (auto simp: wf_state_def detached_def clear_def new_array_def less_Suc_eq)

text \<open>
  C1. \<^verbatim>\<open>checkout()\<close> returns the reference the cart held and the total, both as they
  were before the call; what the caller reads through the returned reference after the
  call is the sequence of lines from before the call, and the returned total is the
  total of exactly those lines; after the call the cart's own array is empty and the
  item count is 0. The three steps of \<^verbatim>\<open>checkout\<close> run on one state with nothing in
  between. The snapshot survives because \<^verbatim>\<open>clear\<close> rebinds \<^verbatim>\<open>this.items\<close> to a new
  array and leaves the old one alone; and whatever operations follow, the returned array
  still reads as the lines from before the call.
\<close>

theorem checkout_snapshot_then_empty:
  assumes "wf_state s" and "checkout s = ((its, tot), s')"
  shows "its = getItems s \<and> contents its s' = lines s \<and> tot = getTotal s
         \<and> tot = sum_list (map total' (contents its s'))
         \<and> lines s' = [] \<and> getItemCount s' = 0
         \<and> contents its (run xs s') = lines s"
proof -
  from assms(2) have r: "its = items s" "tot = getTotal s" "s' = clear s"
    by (auto simp: checkout_def Let_def getItems_def)
  from assms(1) have "items s \<noteq> fresh s" by (simp add: wf_state_def)
  then have c: "contents (items s) (clear s) = lines s"
    by (simp add: contents_def lines_def getItems_def clear_def new_array_def)
  from assms(1) have "detached (items s) (clear s)" by (rule detached_after_clear)
  then have "contents (items s) (run xs (clear s)) = contents (items s) (clear s)"
    by (rule detached_run)
  with r c show ?thesis
    by (simp add: getItems_def lines_clear getItemCount_lines getTotal_lines)
qed

lemma contents_after_checkout_and_more:
  "contents 0 (run [AddItem pen, AdjustQuantity (Num 2) 4, RemoveItem (Num 1)]
       (snd (checkout (run [AddItem mug, AddItem mug, AddItem pen] init))))
   = [\<lparr>product = mug, quantity = 2\<rparr>, \<lparr>product = pen, quantity = 1\<rparr>]
   \<and> lines (run [AddItem pen, AdjustQuantity (Num 2) 4, RemoveItem (Num 1)]
       (snd (checkout (run [AddItem mug, AddItem mug, AddItem pen] init))))
   = [\<lparr>product = pen, quantity = 5\<rparr>]"
  by (simp add: init_def addItem_new_def new_CartItem_def addItem_def lines_def contents_def
      getItems_def mug_def pen_def new_Product_def changeQuantity_def updateQuantity_def
      removeFromCart_def removeItem_def new_array_def checkout_def clear_def Let_def)

theorem checkout_snapshot_then_empty_witness:
  "wf_state (run [AddItem mug, AddItem mug, AddItem pen] init)
   \<and> fst (checkout (run [AddItem mug, AddItem mug, AddItem pen] init)) = (0, 25)
   \<and> contents 0 (snd (checkout (run [AddItem mug, AddItem mug, AddItem pen] init)))
       = [\<lparr>product = mug, quantity = 2\<rparr>, \<lparr>product = pen, quantity = 1\<rparr>]
   \<and> lines (snd (checkout (run [AddItem mug, AddItem mug, AddItem pen] init))) = []
   \<and> getItemCount (snd (checkout (run [AddItem mug, AddItem mug, AddItem pen] init))) = 0
   \<and> contents 0 (run [AddItem pen, AdjustQuantity (Num 2) 4, RemoveItem (Num 1)]
        (snd (checkout (run [AddItem mug, AddItem mug, AddItem pen] init))))
       = [\<lparr>product = mug, quantity = 2\<rparr>, \<lparr>product = pen, quantity = 1\<rparr>]"
proof -
  let ?s = "run [AddItem mug, AddItem mug, AddItem pen] init"
  let ?xs = "[AddItem pen, AdjustQuantity (Num 2) 4, RemoveItem (Num 1)]"
  have w: "wf_state ?s" by (rule wf_run [OF wf_init])
  have c: "checkout ?s = ((fst (fst (checkout ?s)), snd (fst (checkout ?s))), snd (checkout ?s))"
    by simp
  have i: "getItems ?s = 0"
    by (simp add: init_def addItem_new_def new_CartItem_def addItem_def getItems_def)
  have t: "getTotal ?s = 25"
    by (simp only: getTotal_lines lines_two_mugs_one_pen)
      (simp add: total'_def mug_def pen_def new_Product_def)
  have l: "lines ?s = [\<lparr>product = mug, quantity = 2\<rparr>, \<lparr>product = pen, quantity = 1\<rparr>]"
    by (rule lines_two_mugs_one_pen)
  note r = checkout_snapshot_then_empty [OF w c, of ?xs, unfolded i t l]
  from r have a: "fst (fst (checkout ?s)) = 0"
    and b: "contents (fst (fst (checkout ?s))) (snd (checkout ?s))
       = [\<lparr>product = mug, quantity = 2\<rparr>, \<lparr>product = pen, quantity = 1\<rparr>]"
    and d: "contents (fst (fst (checkout ?s))) (run ?xs (snd (checkout ?s)))
       = [\<lparr>product = mug, quantity = 2\<rparr>, \<lparr>product = pen, quantity = 1\<rparr>]"
    by blast+
  from b have "contents 0 (snd (checkout ?s))
       = [\<lparr>product = mug, quantity = 2\<rparr>, \<lparr>product = pen, quantity = 1\<rparr>]"
    by (simp only: a)
  moreover from d have "contents 0 (run ?xs (snd (checkout ?s)))
       = [\<lparr>product = mug, quantity = 2\<rparr>, \<lparr>product = pen, quantity = 1\<rparr>]"
    by (simp only: a)
  moreover from r have "fst (checkout ?s) = (0, 25)"
    by (simp only: prod_eq_iff fst_conv snd_conv)
  moreover from r have "lines (snd (checkout ?s)) = []" by blast
  moreover from r have "getItemCount (snd (checkout ?s)) = 0" by blast
  ultimately show ?thesis using w by blast
qed

section \<open>The cart invariant\<close>

text \<open>
  C2. Start from a well-formed state with an empty cart (the initial state is one) and run
  any sequence of operations. After every prefix of the run, that is between any two
  operations, no two lines have the same product id and every line has quantity at
  least 1.
\<close>

theorem cart_invariant_from_empty:
  assumes "wf_state s" and "lines s = []"
  shows "distinct (map (\<lambda>l. id' (product l)) (lines (run (take n xs) s)))
         \<and> (\<forall>l\<in>set (lines (run (take n xs) s)). 1 \<le> quantity l)"
proof -
  from assms(2) have "cart_inv s" by (rule cart_inv_empty)
  with assms(1) have "cart_inv (run (take n xs) s)" by (rule cart_inv_run)
  then show ?thesis by (simp add: cart_inv_def)
qed

lemma lines_mug_up_and_down:
  "lines (run [AddItem mug, AddItem mug, AdjustQuantity (Num 1) (- 1), AddItem pen,
               AdjustQuantity (Num 2) (- 1)] init) = [\<lparr>product = mug, quantity = 1\<rparr>]"
  by (simp add: init_def addItem_new_def new_CartItem_def addItem_def lines_def contents_def
      getItems_def mug_def pen_def new_Product_def changeQuantity_def updateQuantity_def
      removeItem_def new_array_def Let_def)

theorem cart_invariant_from_empty_witness:
  "wf_state init \<and> lines init = []
   \<and> lines (run (take 5 [AddItem mug, AddItem mug, AdjustQuantity (Num 1) (- 1), AddItem pen,
               AdjustQuantity (Num 2) (- 1), Checkout]) init) = [\<lparr>product = mug, quantity = 1\<rparr>]
   \<and> distinct (map (\<lambda>l. id' (product l))
        (lines (run (take 5 [AddItem mug, AddItem mug, AdjustQuantity (Num 1) (- 1), AddItem pen,
               AdjustQuantity (Num 2) (- 1), Checkout]) init)))
   \<and> list_all (\<lambda>l. 1 \<le> quantity l)
        (lines (run (take 5 [AddItem mug, AddItem mug, AdjustQuantity (Num 1) (- 1), AddItem pen,
               AdjustQuantity (Num 2) (- 1), Checkout]) init))"
proof -
  let ?xs = "[AddItem mug, AddItem mug, AdjustQuantity (Num 1) (- 1), AddItem pen,
               AdjustQuantity (Num 2) (- 1), Checkout]"
  have t: "take 5 ?xs = [AddItem mug, AddItem mug, AdjustQuantity (Num 1) (- 1), AddItem pen,
               AdjustQuantity (Num 2) (- 1)]" by (simp add: take_Cons')
  have l: "lines (run (take 5 ?xs) init) = [\<lparr>product = mug, quantity = 1\<rparr>]"
    by (simp only: t lines_mug_up_and_down)
  from cart_invariant_from_empty [OF wf_init lines_init, of 5 ?xs]
  have "distinct (map (\<lambda>l. id' (product l)) (lines (run (take 5 ?xs) init)))"
    and "list_all (\<lambda>l. 1 \<le> quantity l) (lines (run (take 5 ?xs) init))"
    unfolding list_all_iff by blast+
  with l wf_init lines_init show ?thesis by blast
qed

section \<open>The example states\<close>

lemma shop_eq: "shop = init\<lparr>products := [mug, pen]\<rparr>"
  by (simp add: shop_def getProducts_def fetchAll_def fetchAll_try_def catalog_def mug_def
      pen_def product_of_def Let_def)

lemma wf_shop: "wf_state shop"
  by (simp add: shop_eq wf_state_def init_def)

lemma lines_shop: "lines shop = []"
  by (simp add: shop_eq lines_def contents_def getItems_def init_def)

lemma getById_shop: "getById (Num 1) shop = Some mug"
  by (simp add: shop_eq getById_def mug_def pen_def new_Product_def)

section \<open>Adding a product\<close>

text \<open>
  C3. In every well-formed state: if the cart has a line for the product's id, adding
  the product adds exactly 1 to the quantity of the first such line, which keeps its
  place and the Product it references, and no other line changes; otherwise a new line
  with the product and quantity 1 is appended at the end. So adding a product twice to a
  cart that had no line for it gives one more line, with quantity 2 and the Product of
  the first call, even when the second call passes another Product of the same id.
  \<^verbatim>\<open>addToCart\<close> does this with the product it finds in the catalog.
\<close>

theorem addItem_increments_or_appends:
  assumes "wf_state s"
  shows "(\<forall>pre l post.
            lines s = pre @ l # post \<and> id' (product l) = id' p
            \<and> (\<forall>x\<in>set pre. id' (product x) \<noteq> id' p)
          \<longrightarrow> lines (addItem_new p s)
                = pre @ \<lparr>product = product l, quantity = quantity l + 1\<rparr> # post)
       \<and> ((\<forall>l\<in>set (lines s). id' (product l) \<noteq> id' p)
          \<longrightarrow> lines (addItem_new p s) = lines s @ [\<lparr>product = p, quantity = 1\<rparr>]
              \<and> (id' p' = id' p
                 \<longrightarrow> lines (addItem_new p' (addItem_new p s))
                       = lines s @ [\<lparr>product = p, quantity = 2\<rparr>]))
       \<and> (getById i s = Some p \<longrightarrow> addToCart i s = addItem_new p s)"
proof (intro conjI allI impI)
  fix pre l post
  assume a: "lines s = pre @ l # post \<and> id' (product l) = id' p
            \<and> (\<forall>x\<in>set pre. id' (product x) \<noteq> id' p)"
  then have "lines (addItem_new p s) = pre @ l\<lparr>quantity := quantity l + 1\<rparr> # post"
    using lines_addItem_new_present [OF assms, of pre l post p] by blast
  then show "lines (addItem_new p s)
                = pre @ \<lparr>product = product l, quantity = quantity l + 1\<rparr> # post"
    by simp
next
  assume a: "\<forall>l\<in>set (lines s). id' (product l) \<noteq> id' p"
  show one: "lines (addItem_new p s) = lines s @ [\<lparr>product = p, quantity = 1\<rparr>]"
    using assms a by (rule lines_addItem_new_absent)
  assume e: "id' p' = id' p"
  have w: "wf_state (addItem_new p s)" using assms by (rule wf_addItem_new)
  have "lines (addItem_new p' (addItem_new p s))
        = lines s @ (\<lparr>product = p, quantity = 1\<rparr>)\<lparr>quantity := quantity \<lparr>product = p, quantity = 1\<rparr> + 1\<rparr> # []"
  proof (rule lines_addItem_new_present [OF w])
    show "lines (addItem_new p s) = lines s @ \<lparr>product = p, quantity = 1\<rparr> # []"
      using one by simp
    show "id' (product \<lparr>product = p, quantity = 1\<rparr>) = id' p'" using e by simp
    show "\<forall>x\<in>set (lines s). id' (product x) \<noteq> id' p'" using a e by simp
  qed
  then show "lines (addItem_new p' (addItem_new p s)) = lines s @ [\<lparr>product = p, quantity = 2\<rparr>]"
    by simp
next
  assume "getById i s = Some p"
  then show "addToCart i s = addItem_new p s" by (simp add: addToCart_def)
qed

theorem addItem_increments_or_appends_witness:
  "wf_state shop
   \<and> getById (Num 1) shop = Some mug
   \<and> lines (addToCart (Num 1) shop) = [\<lparr>product = mug, quantity = 1\<rparr>]
   \<and> lines (addItem_new mug (addItem_new mug shop)) = [\<lparr>product = mug, quantity = 2\<rparr>]
   \<and> lines (addItem_new (mug\<lparr>title := ''Cup'', price := 12\<rparr>) (addItem_new mug shop))
       = [\<lparr>product = mug, quantity = 2\<rparr>]
   \<and> lines (addItem_new pen (run [AddItem mug, AddItem pen] shop))
       = [\<lparr>product = mug, quantity = 1\<rparr>, \<lparr>product = pen, quantity = 2\<rparr>]"
proof -
  have w2: "wf_state (run [AddItem mug, AddItem pen] shop)" by (rule wf_run [OF wf_shop])
  have l2: "lines (run [AddItem mug, AddItem pen] shop)
          = [\<lparr>product = mug, quantity = 1\<rparr>] @ \<lparr>product = pen, quantity = 1\<rparr> # []"
    by (simp add: shop_eq init_def addItem_new_def new_CartItem_def addItem_def lines_def
        contents_def getItems_def mug_def pen_def new_Product_def)
  have "id' (product \<lparr>product = pen, quantity = 1\<rparr>) = id' pen
        \<and> (\<forall>x\<in>set [\<lparr>product = mug, quantity = 1\<rparr>]. id' (product x) \<noteq> id' pen)"
    by (simp add: mug_def pen_def new_Product_def)
  with addItem_increments_or_appends [OF w2, of pen] l2
  have "lines (addItem_new pen (run [AddItem mug, AddItem pen] shop))
        = [\<lparr>product = mug, quantity = 1\<rparr>]
          @ \<lparr>product = product \<lparr>product = pen, quantity = 1\<rparr>,
               quantity = quantity \<lparr>product = pen, quantity = 1\<rparr> + 1\<rparr> # []"
    by blast
  then have mid: "lines (addItem_new pen (run [AddItem mug, AddItem pen] shop))
       = [\<lparr>product = mug, quantity = 1\<rparr>, \<lparr>product = pen, quantity = 2\<rparr>]"
    by simp
  note r = addItem_increments_or_appends [OF wf_shop, of mug _ "Num 1", unfolded lines_shop]
  have n: "\<forall>l\<in>set []. id' (product l) \<noteq> id' mug" by simp
  from r getById_shop have "addToCart (Num 1) shop = addItem_new mug shop" by blast
  moreover from r n have one: "lines (addItem_new mug shop) = [] @ [\<lparr>product = mug, quantity = 1\<rparr>]"
    by blast
  moreover from addItem_increments_or_appends [OF wf_shop, of mug mug, unfolded lines_shop] n
  have "lines (addItem_new mug (addItem_new mug shop)) = [] @ [\<lparr>product = mug, quantity = 2\<rparr>]"
    by blast
  moreover have "id' (mug\<lparr>title := ''Cup'', price := 12\<rparr>) = id' mug" by simp
  with addItem_increments_or_appends
    [OF wf_shop, of mug "mug\<lparr>title := ''Cup'', price := 12\<rparr>", unfolded lines_shop] n
  have "lines (addItem_new (mug\<lparr>title := ''Cup'', price := 12\<rparr>) (addItem_new mug shop))
       = [] @ [\<lparr>product = mug, quantity = 2\<rparr>]"
    by blast
  ultimately show ?thesis using wf_shop getById_shop mid by simp
qed

section \<open>Adjusting a quantity\<close>

text \<open>
  C4. In every well-formed state, for every id and every integer delta: when no line has
  the id, \<^verbatim>\<open>updateQuantity\<close> changes nothing at all. When a line has it, the first such
  line gets quantity plus delta and stays in place if that is positive; if it is 0 or
  less the line is removed (with any later line of the same id, of which a cart unique
  by id has none), so no line with the id is left: a quantity is never set to 0 and kept.
  \<^verbatim>\<open>changeQuantity\<close> is \<^verbatim>\<open>updateQuantity\<close>. The example after the theorem is the
  scenario with two units at price 10: minus one gives quantity 1 and total 10, minus one
  again gives no line, total 0 and count 0.
\<close>

theorem updateQuantity_adds_delta_or_deletes:
  assumes "wf_state s"
  shows "((\<forall>l\<in>set (lines s). id' (product l) \<noteq> i) \<longrightarrow> updateQuantity i d s = s)
       \<and> (\<forall>pre l post.
            lines s = pre @ l # post \<and> id' (product l) = i
            \<and> (\<forall>x\<in>set pre. id' (product x) \<noteq> i)
          \<longrightarrow> (0 < quantity l + d
                \<longrightarrow> lines (updateQuantity i d s)
                      = pre @ \<lparr>product = product l, quantity = quantity l + d\<rparr> # post)
              \<and> (quantity l + d \<le> 0
                \<longrightarrow> lines (updateQuantity i d s) = pre @ filter (\<lambda>x. id' (product x) \<noteq> i) post
                    \<and> (\<forall>x\<in>set (lines (updateQuantity i d s)). id' (product x) \<noteq> i)
                    \<and> ((\<forall>x\<in>set post. id' (product x) \<noteq> i)
                       \<longrightarrow> lines (updateQuantity i d s) = pre @ post)))
       \<and> changeQuantity i d s = updateQuantity i d s"
proof (intro conjI allI impI)
  assume "\<forall>l\<in>set (lines s). id' (product l) \<noteq> i"
  then show "updateQuantity i d s = s" by (rule updateQuantity_absent)
next
  fix pre l post
  assume a: "lines s = pre @ l # post \<and> id' (product l) = i
            \<and> (\<forall>x\<in>set pre. id' (product x) \<noteq> i)"
  then have u: "lines (updateQuantity i d s) =
           (if quantity l + d \<le> 0 then pre @ filter (\<lambda>x. id' (product x) \<noteq> i) post
            else pre @ l\<lparr>quantity := quantity l + d\<rparr> # post)"
    using lines_updateQuantity_present [OF assms, of pre l post i d] by blast
  {
    assume "0 < quantity l + d"
    with u show "lines (updateQuantity i d s)
                      = pre @ \<lparr>product = product l, quantity = quantity l + d\<rparr> # post"
      by simp
  }
  assume neg: "quantity l + d \<le> 0"
  with u show del: "lines (updateQuantity i d s) = pre @ filter (\<lambda>x. id' (product x) \<noteq> i) post"
    by simp
  from del a show "\<forall>x\<in>set (lines (updateQuantity i d s)). id' (product x) \<noteq> i"
    by auto
  assume "\<forall>x\<in>set post. id' (product x) \<noteq> i"
  then have "filter (\<lambda>x. id' (product x) \<noteq> i) post = post"
    by (simp add: filter_id_conv)
  with del show "lines (updateQuantity i d s) = pre @ post" by simp
next
  show "changeQuantity i d s = updateQuantity i d s" by (simp add: changeQuantity_def)
qed

lemma lines_two_mugs_shop:
  "lines (addToCart (Num 1) (addToCart (Num 1) shop)) = [\<lparr>product = mug, quantity = 2\<rparr>]"
  by (simp add: shop_eq init_def addToCart_def getById_def addItem_new_def new_CartItem_def
      addItem_def lines_def contents_def getItems_def mug_def pen_def new_Product_def)

theorem updateQuantity_adds_delta_or_deletes_witness:
  "wf_state (addToCart (Num 1) (addToCart (Num 1) shop))
   \<and> lines (addToCart (Num 1) (addToCart (Num 1) shop)) = [\<lparr>product = mug, quantity = 2\<rparr>]
   \<and> getCartTotal (addToCart (Num 1) (addToCart (Num 1) shop)) = 20
   \<and> lines (changeQuantity (Num 1) (- 1) (addToCart (Num 1) (addToCart (Num 1) shop)))
       = [\<lparr>product = mug, quantity = 1\<rparr>]
   \<and> getCartTotal (changeQuantity (Num 1) (- 1) (addToCart (Num 1) (addToCart (Num 1) shop))) = 10
   \<and> lines (changeQuantity (Num 1) (- 1)
        (changeQuantity (Num 1) (- 1) (addToCart (Num 1) (addToCart (Num 1) shop)))) = []
   \<and> getCartTotal (changeQuantity (Num 1) (- 1)
        (changeQuantity (Num 1) (- 1) (addToCart (Num 1) (addToCart (Num 1) shop)))) = 0
   \<and> getCartItemCount (changeQuantity (Num 1) (- 1)
        (changeQuantity (Num 1) (- 1) (addToCart (Num 1) (addToCart (Num 1) shop)))) = 0
   \<and> changeQuantity (Num 2) (- 1) (addToCart (Num 1) (addToCart (Num 1) shop))
       = addToCart (Num 1) (addToCart (Num 1) shop)"
proof -
  let ?s2 = "addToCart (Num 1) (addToCart (Num 1) shop)"
  let ?s1 = "changeQuantity (Num 1) (- 1) ?s2"
  let ?s0 = "changeQuantity (Num 1) (- 1) ?s1"
  have "?s2 = run [AddToCart (Num 1), AddToCart (Num 1)] shop" by simp
  then have w2: "wf_state ?s2" by (simp only: wf_run [OF wf_shop])
  have "?s1 = run [AddToCart (Num 1), AddToCart (Num 1), AdjustQuantity (Num 1) (- 1)] shop"
    by simp
  then have w1: "wf_state ?s1" by (simp only: wf_run [OF wf_shop])
  have l2: "lines ?s2 = [] @ \<lparr>product = mug, quantity = 2\<rparr> # []"
    by (simp add: lines_two_mugs_shop)
  have i: "id' (product \<lparr>product = mug, quantity = 2\<rparr>) = Num 1"
    "id' (product \<lparr>product = mug, quantity = 1\<rparr>) = Num 1"
    by (simp_all add: mug_def new_Product_def)
  have e: "\<forall>x\<in>set []. id' (product x) \<noteq> Num 1" by simp
  note r2 = updateQuantity_adds_delta_or_deletes [OF w2, of "Num 1" "- 1"]
  from r2 have c2: "?s1 = updateQuantity (Num 1) (- 1) ?s2" by blast
  have "0 < quantity \<lparr>product = mug, quantity = 2\<rparr> + - 1" by simp
  with r2 l2 i(1) e have "lines (updateQuantity (Num 1) (- 1) ?s2)
      = [] @ \<lparr>product = product \<lparr>product = mug, quantity = 2\<rparr>,
               quantity = quantity \<lparr>product = mug, quantity = 2\<rparr> + - 1\<rparr> # []"
    by blast
  then have l1: "lines ?s1 = [] @ \<lparr>product = mug, quantity = 1\<rparr> # []"
    by (simp add: c2)
  note r1 = updateQuantity_adds_delta_or_deletes [OF w1, of "Num 1" "- 1"]
  from r1 have c1: "?s0 = updateQuantity (Num 1) (- 1) ?s1" by blast
  have "quantity \<lparr>product = mug, quantity = 1\<rparr> + - 1 \<le> 0" by simp
  with r1 l1 i(2) e have "lines (updateQuantity (Num 1) (- 1) ?s1) = [] @ []"
    by blast
  then have l0: "lines ?s0 = []" by (simp add: c1)
  have "\<forall>l\<in>set ([] @ \<lparr>product = mug, quantity = 2\<rparr> # []). id' (product l) \<noteq> Num 2"
    by (simp add: mug_def new_Product_def)
  with updateQuantity_adds_delta_or_deletes [OF w2, of "Num 2" "- 1"] l2
  have n: "changeQuantity (Num 2) (- 1) ?s2 = ?s2" by simp
  have t2: "getCartTotal ?s2 = 20"
    by (simp only: getCartTotal_def getTotal_lines l2) (simp add: total'_def mug_def new_Product_def)
  have t1: "getCartTotal ?s1 = 10"
    by (simp only: getCartTotal_def getTotal_lines l1) (simp add: total'_def mug_def new_Product_def)
  have t0: "getCartTotal ?s0 = 0" "getCartItemCount ?s0 = 0"
    by (simp_all only: getCartTotal_def getCartItemCount_def getTotal_lines getItemCount_lines l0)
      simp_all
  from w2 l2 l1 l0 n t2 t1 t0 show ?thesis by simp
qed

section \<open>Fetching the catalog\<close>

lemma map_new_Product_objects:
  "map_new_Product (map JObject rs)
   = Inr (map product_of rs)"
  by (induction rs) simp_all

lemma map_new_Product_null: "JNull \<in> set ps \<Longrightarrow> map_new_Product ps = Inl TypeError"
proof (induction ps rule: map_new_Product.induct)
  case 1
  then show ?case by simp
next
  case (2 ps)
  then show ?case by simp
next
  case (3 p ps)
  then show ?case by simp
qed

lemma map_new_Product_Inr:
  "map_new_Product ps = Inr xs \<Longrightarrow>
   \<exists>rs. ps = map JObject rs
     \<and> xs = map product_of rs"
proof (induction ps arbitrary: xs rule: map_new_Product.induct)
  case 1
  then show ?case by simp
next
  case (2 ps)
  then show ?case by simp
next
  case (3 p ps)
  from "3.prems" obtain ys where y: "map_new_Product ps = Inr ys"
    and x: "xs = product_of p # ys"
    by (auto split: sum.splits)
  from "3.IH" [OF y] obtain rs where "ps = map JObject rs"
    "ys = map product_of rs"
    by blast
  with x have "JObject p # ps = map JObject (p # rs)
     \<and> xs = map product_of (p # rs)"
    by simp
  then show ?case by (rule exI)
qed

lemma map_new_Product_Inl: "map_new_Product ps = Inl e \<Longrightarrow> e = TypeError \<and> JNull \<in> set ps"
  by (induction ps rule: map_new_Product.induct) (auto split: sum.splits)

lemma fetchAll_Inl: "fetchAll r s = (Inl e, s') \<Longrightarrow> s' = s"
  by (auto simp: fetchAll_def split: sum.splits prod.splits)

lemma fetchAll_objects:
  "fetchAll (Parsed (JArray (map JObject rs))) s
   = (Inr (map product_of rs),
      s\<lparr>products := map product_of rs\<rparr>)"
  by (simp add: fetchAll_def fetchAll_try_def map_new_Product_objects Let_def)

lemma fetchAll_Inr:
  assumes "fetchAll r s = (Inr xs, s')"
  shows "\<exists>rs. r = Parsed (JArray (map JObject rs))
     \<and> xs = map product_of rs
     \<and> s' = s\<lparr>products := xs\<rparr>"
proof -
  from assms obtain ps where r: "r = Parsed (JArray ps)" and m: "map_new_Product ps = Inr xs"
    and s': "s' = s\<lparr>products := xs\<rparr>"
    by (auto simp: fetchAll_def fetchAll_try_def Let_def
        split: remote.splits json_data.splits sum.splits)
  from map_new_Product_Inr [OF m] r s' show ?thesis by blast
qed

text \<open>
  The specification calls the error of a failed fetch a FetchError carrying the underlying
  cause. The \<^verbatim>\<open>catch\<close> clause of \<^verbatim>\<open>fetchAll\<close> is \<^verbatim>\<open>console.error(...); throw error\<close>:
  it throws the error it caught, not a new error around it. With the network down, the
  call on the example state throws the rejection reason itself, which is no FetchError.
\<close>

theorem fetchAll_throws_no_FetchError:
  "fst (fetchAll (FetchRejects ''offline'') shop) = Inl (Rejected ''offline'')
   \<and> \<not> fails_with_FetchError (fst (fetchAll (FetchRejects ''offline'') shop))
         (Rejected ''offline'')
   \<and> \<not> is_FetchError (Rejected ''offline'')"
  by (simp add: fetchAll_def fetchAll_try_def fails_with_FetchError_def)

text \<open>
  C6, as the code has it. Whenever \<^verbatim>\<open>fetchAll\<close> fails, the state is the one before the
  call, so \<^verbatim>\<open>getById\<close> answers every id as before, and the error thrown is the very
  error that caused the failure, not wrapped in a FetchError: the reason \<^verbatim>\<open>fetch\<close> or
  \<^verbatim>\<open>response.json()\<close> rejected with, or the TypeError of \<^verbatim>\<open>data.map\<close> on a non-array
  or of \<^verbatim>\<open>p.id\<close> on \<^verbatim>\<open>null\<close>. Each of these four faults makes the call fail, and a
  failed call is never a success. \<^verbatim>\<open>getProducts\<close> passes the outcome on.
\<close>

theorem fetchAll_failure_keeps_catalog:
  "fetchAll (FetchRejects x) s = (Inl (Rejected x), s)
   \<and> fetchAll (JsonRejects x) s = (Inl (Rejected x), s)
   \<and> fetchAll (Parsed NotArray) s = (Inl TypeError, s)
   \<and> (JNull \<in> set ps \<longrightarrow> fetchAll (Parsed (JArray ps)) s = (Inl TypeError, s))
   \<and> (\<forall>e s'. fetchAll r s = (Inl e, s') \<longrightarrow>
         s' = s \<and> (\<forall>i. getById i s' = getById i s)
         \<and> e = (case r of FetchRejects y \<Rightarrow> Rejected y | JsonRejects y \<Rightarrow> Rejected y
                     | Parsed d \<Rightarrow> TypeError)
         \<and> \<not> is_FetchError e
         \<and> \<not> fails_with_FetchError (fst (fetchAll r s)) e)
   \<and> getProducts r s = fetchAll r s"
proof (intro conjI allI impI)
  show "fetchAll (FetchRejects x) s = (Inl (Rejected x), s)"
    by (simp add: fetchAll_def fetchAll_try_def)
  show "fetchAll (JsonRejects x) s = (Inl (Rejected x), s)"
    by (simp add: fetchAll_def fetchAll_try_def)
  show "fetchAll (Parsed NotArray) s = (Inl TypeError, s)"
    by (simp add: fetchAll_def fetchAll_try_def)
  show "getProducts r s = fetchAll r s" by (simp add: getProducts_def)
next
  assume "JNull \<in> set ps"
  then show "fetchAll (Parsed (JArray ps)) s = (Inl TypeError, s)"
    by (simp add: fetchAll_def fetchAll_try_def map_new_Product_null)
next
  fix e s' i
  assume f: "fetchAll r s = (Inl e, s')"
  then show u: "s' = s" by (rule fetchAll_Inl)
  then show "getById i s' = getById i s" by simp
  from f show c: "e = (case r of FetchRejects y \<Rightarrow> Rejected y | JsonRejects y \<Rightarrow> Rejected y
                     | Parsed d \<Rightarrow> TypeError)"
    by (auto simp: fetchAll_def fetchAll_try_def Let_def
        split: remote.splits json_data.splits sum.splits dest: map_new_Product_Inl)
  then show n: "\<not> is_FetchError e" by (cases r) simp_all
  from f have "fst (fetchAll r s) = Inl e" by simp
  moreover from n have "e \<noteq> FetchError e" by auto
  ultimately show "\<not> fails_with_FetchError (fst (fetchAll r s)) e"
    by (simp add: fails_with_FetchError_def)
qed

lemma getById_shop_pen: "getById (Num 2) shop = Some pen"
  by (simp add: shop_eq getById_def mug_def pen_def new_Product_def)

theorem fetchAll_failure_keeps_catalog_witness:
  "fetchAll (FetchRejects ''offline'') shop = (Inl (Rejected ''offline''), shop)
   \<and> fetchAll (Parsed (JArray [JObject \<lparr>raw_id = Num 7, raw_title = ''Cap'', raw_price = 3,
          raw_image = ''cap.png''\<rparr>, JNull])) shop = (Inl TypeError, shop)
   \<and> getById (Num 1) (snd (fetchAll (FetchRejects ''offline'') shop)) = Some mug
   \<and> getById (Num 2) (snd (fetchAll (FetchRejects ''offline'') shop)) = Some pen
   \<and> \<not> is_FetchError (Rejected ''offline'')"
proof -
  let ?ps = "[JObject \<lparr>raw_id = Num 7, raw_title = ''Cap'', raw_price = 3,
          raw_image = ''cap.png''\<rparr>, JNull]"
  note r = fetchAll_failure_keeps_catalog [of "''offline''" shop ?ps "FetchRejects ''offline''"]
  from r have a: "fetchAll (FetchRejects ''offline'') shop = (Inl (Rejected ''offline''), shop)"
    by blast
  have "JNull \<in> set ?ps" by simp
  with r have b: "fetchAll (Parsed (JArray ?ps)) shop = (Inl TypeError, shop)" by blast
  from a have "fetchAll (FetchRejects ''offline'') shop
       = (Inl (Rejected ''offline''), snd (fetchAll (FetchRejects ''offline'') shop))"
    by simp
  with r have "\<forall>i. getById i (snd (fetchAll (FetchRejects ''offline'') shop)) = getById i shop"
    by blast
  then have "getById (Num 1) (snd (fetchAll (FetchRejects ''offline'') shop)) = Some mug"
    and "getById (Num 2) (snd (fetchAll (FetchRejects ''offline'') shop)) = Some pen"
    by (simp_all only: getById_shop getById_shop_pen)
  moreover from r a have "\<not> is_FetchError (Rejected ''offline'')" by blast
  ultimately show ?thesis using a b by blast
qed

text \<open>
  C9. A fetch that parses to an array of records succeeds, returns the Products made
  from the records one by one in the order of the array, each with the record's four
  fields, and sets the catalog to exactly that sequence, whatever it held before. Every
  successful fetch is of this kind. A second successful fetch leaves only its own
  products. After any fetch the catalog is either the old one or the complete new one.
\<close>

theorem fetchAll_success_replaces_catalog:
  "fetchAll (Parsed (JArray (map JObject rs))) s
     = (Inr (map product_of rs), s\<lparr>products := map product_of rs\<rparr>)
   \<and> id' (product_of p) = raw_id p \<and> title (product_of p) = raw_title p
   \<and> price (product_of p) = raw_price p \<and> image' (product_of p) = raw_image p
   \<and> (\<forall>xs s'. fetchAll r s = (Inr xs, s') \<longrightarrow>
         (\<exists>rs. r = Parsed (JArray (map JObject rs)) \<and> xs = map product_of rs)
         \<and> s' = s\<lparr>products := xs\<rparr> \<and> products s' = xs)
   \<and> products (snd (fetchAll (Parsed (JArray (map JObject rs')))
                  (snd (fetchAll (Parsed (JArray (map JObject rs))) s))))
       = map product_of rs'
   \<and> (products (snd (fetchAll r s)) = products s
       \<or> (\<exists>rs. r = Parsed (JArray (map JObject rs))
             \<and> products (snd (fetchAll r s)) = map product_of rs))"
proof (intro conjI allI impI)
  show "fetchAll (Parsed (JArray (map JObject rs))) s
     = (Inr (map product_of rs), s\<lparr>products := map product_of rs\<rparr>)"
    by (rule fetchAll_objects)
  show "id' (product_of p) = raw_id p" "title (product_of p) = raw_title p"
    "price (product_of p) = raw_price p" "image' (product_of p) = raw_image p"
    by (simp_all add: product_of_def new_Product_def)
  show "products (snd (fetchAll (Parsed (JArray (map JObject rs')))
                  (snd (fetchAll (Parsed (JArray (map JObject rs))) s))))
       = map product_of rs'"
    by (simp add: fetchAll_objects)
  show "products (snd (fetchAll r s)) = products s
       \<or> (\<exists>rs. r = Parsed (JArray (map JObject rs))
             \<and> products (snd (fetchAll r s)) = map product_of rs)"
  proof (cases "fst (fetchAll r s)")
    case (Inl e)
    then have "fetchAll r s = (Inl e, snd (fetchAll r s))" by (simp add: prod_eq_iff)
    from fetchAll_Inl [OF this] show ?thesis by simp
  next
    case (Inr xs)
    then have "fetchAll r s = (Inr xs, snd (fetchAll r s))" by (simp add: prod_eq_iff)
    from fetchAll_Inr [OF this] show ?thesis by auto
  qed
next
  fix xs s'
  assume f: "fetchAll r s = (Inr xs, s')"
  from fetchAll_Inr [OF f]
  show "\<exists>rs. r = Parsed (JArray (map JObject rs)) \<and> xs = map product_of rs"
    and "s' = s\<lparr>products := xs\<rparr>" and "products s' = xs"
    by auto
qed

theorem fetchAll_success_replaces_catalog_witness:
  "fetchAll (Parsed (JArray catalog)) init = (Inr [mug, pen], init\<lparr>products := [mug, pen]\<rparr>)
   \<and> products (snd (fetchAll (Parsed (JArray [JObject \<lparr>raw_id = Num 2, raw_title = ''Pen'',
         raw_price = 5, raw_image = ''pen.png''\<rparr>])) (snd (fetchAll (Parsed (JArray catalog)) init))))
       = [pen]
   \<and> products (snd (fetchAll (Parsed (JArray catalog)) init)) = [mug, pen]"
proof -
  let ?m = "\<lparr>raw_id = Num 1, raw_title = ''Mug'', raw_price = 10, raw_image = ''mug.png''\<rparr>"
  let ?p = "\<lparr>raw_id = Num 2, raw_title = ''Pen'', raw_price = 5, raw_image = ''pen.png''\<rparr>"
  have c: "catalog = map JObject [?m, ?p]" by (simp add: catalog_def)
  have o: "[JObject ?p] = map JObject [?p]" by simp
  have m: "map product_of [?m, ?p] = [mug, pen]" "map product_of [?p] = [pen]"
    by (simp_all add: product_of_def mug_def pen_def)
  note r = fetchAll_success_replaces_catalog [of "[?m, ?p]" init _ _ "[?p]", folded c o, unfolded m]
  from r have a: "fetchAll (Parsed (JArray catalog)) init
      = (Inr [mug, pen], init\<lparr>products := [mug, pen]\<rparr>)" by blast
  then have "fetchAll (Parsed (JArray catalog)) init
      = (Inr [mug, pen], snd (fetchAll (Parsed (JArray catalog)) init))" by simp
  with fetchAll_success_replaces_catalog [of _ init _ "Parsed (JArray catalog)"]
  have b: "products (snd (fetchAll (Parsed (JArray catalog)) init)) = [mug, pen]" by blast
  from r have "products (snd (fetchAll (Parsed (JArray [JObject ?p]))
      (snd (fetchAll (Parsed (JArray catalog)) init)))) = [pen]" by blast
  with a b show ?thesis by blast
qed

section \<open>Lookup by id\<close>

text \<open>
  C10. \<^verbatim>\<open>getById\<close> returns a product only if that product is in the catalog and its id
  is equal to the argument as a value of \<open>ident\<close>, that is of the same kind (number or
  string) and the same content; when no product has such an id it returns nothing. So
  in a catalog whose ids are all numbers, looking up any string finds nothing, and
  \<^verbatim>\<open>addToCart\<close> with a string leaves the state as it is.
\<close>

theorem getById_strict_equality:
  "(getById i s = Some p \<longrightarrow> p \<in> set (products s) \<and> id' p = i)
   \<and> ((\<forall>p\<in>set (products s). id' p \<noteq> i) \<longrightarrow> getById i s = None)
   \<and> ((\<forall>p\<in>set (products s). \<exists>n. id' p = Num n)
       \<longrightarrow> getById (Str t) s = None \<and> addToCart (Str t) s = s)"
proof (intro conjI impI)
  assume "getById i s = Some p"
  then have "find (\<lambda>p. id' p = i) (products s) = Some p" by (simp add: getById_def)
  from find_first_split [OF this] show "p \<in> set (products s)" and "id' p = i" by auto
next
  assume "\<forall>p\<in>set (products s). id' p \<noteq> i"
  then show "getById i s = None" by (simp add: getById_def find_none_misses)
next
  assume "\<forall>p\<in>set (products s). \<exists>n. id' p = Num n"
  then have "\<forall>p\<in>set (products s). \<not> id' p = Str t" by auto
  then show n: "getById (Str t) s = None" by (simp add: getById_def find_none_misses)
  then show "addToCart (Str t) s = s" by (simp add: addToCart_def)
qed

theorem getById_strict_equality_witness:
  "products shop = [mug, pen] \<and> id' mug = Num 1 \<and> id' pen = Num 2
   \<and> getById (Num 1) shop = Some mug
   \<and> getById (Str ''1'') shop = None
   \<and> addToCart (Str ''1'') shop = shop
   \<and> getById (Num 3) shop = None"
proof -
  have p: "products shop = [mug, pen]" by (simp add: shop_eq)
  have i: "id' mug = Num 1" "id' pen = Num 2" by (simp_all add: mug_def pen_def new_Product_def)
  from p i have "\<forall>p\<in>set (products shop). \<exists>n. id' p = Num n" by simp
  with getById_strict_equality [of _ shop _ "''1''"]
  have "getById (Str ''1'') shop = None \<and> addToCart (Str ''1'') shop = shop" by blast
  moreover from getById_strict_equality [of "Num 1" shop mug] getById_shop
  have "mug \<in> set (products shop) \<and> id' mug = Num 1" by blast
  moreover from p i have "\<forall>p\<in>set (products shop). id' p \<noteq> Num 3" by simp
  with getById_strict_equality [of "Num 3" shop] have "getById (Num 3) shop = None" by blast
  ultimately show ?thesis using p i getById_shop by blast
qed

section \<open>Absent ids\<close>

text \<open>
  C7. When no line has the id, \<^verbatim>\<open>removeFromCart\<close> leaves the lines, the total and the
  count as they were (it still rebinds \<^verbatim>\<open>this.items\<close> to a new array with the same
  items), and \<^verbatim>\<open>changeQuantity\<close> leaves the whole state as it was. When the catalog has
  no product with the id, \<^verbatim>\<open>addToCart\<close> leaves the whole state as it was. None of the
  three has a failing path in the source (no \<^verbatim>\<open>throw\<close>, and every property read is on
  an object), so each is a total function to a state, with no error result.
\<close>

theorem absent_id_is_no_op:
  "((\<forall>l\<in>set (lines s). id' (product l) \<noteq> i) \<longrightarrow>
       lines (removeFromCart i s) = lines s
       \<and> getCartTotal (removeFromCart i s) = getCartTotal s
       \<and> getCartItemCount (removeFromCart i s) = getCartItemCount s
       \<and> changeQuantity i d s = s
       \<and> lines (changeQuantity i d s) = lines s
       \<and> getCartTotal (changeQuantity i d s) = getCartTotal s
       \<and> getCartItemCount (changeQuantity i d s) = getCartItemCount s)
   \<and> (getById i s = None \<longrightarrow> addToCart i s = s)"
proof (intro conjI impI)
  assume a: "\<forall>l\<in>set (lines s). id' (product l) \<noteq> i"
  then have "filter (\<lambda>l. id' (product l) \<noteq> i) (lines s) = lines s"
    by (simp add: filter_id_conv)
  then show r: "lines (removeFromCart i s) = lines s"
    by (simp add: removeFromCart_def lines_removeItem)
  then show "getCartTotal (removeFromCart i s) = getCartTotal s"
    and "getCartItemCount (removeFromCart i s) = getCartItemCount s"
    by (simp_all add: getCartTotal_def getCartItemCount_def getTotal_lines getItemCount_lines)
  from a show c: "changeQuantity i d s = s"
    by (simp add: changeQuantity_def updateQuantity_absent)
  then show "lines (changeQuantity i d s) = lines s"
    and "getCartTotal (changeQuantity i d s) = getCartTotal s"
    and "getCartItemCount (changeQuantity i d s) = getCartItemCount s"
    by simp_all
next
  assume "getById i s = None"
  then show "addToCart i s = s" by (simp add: addToCart_def)
qed

theorem absent_id_is_no_op_witness:
  "lines (addToCart (Num 1) (addToCart (Num 1) shop)) = [\<lparr>product = mug, quantity = 2\<rparr>]
   \<and> lines (removeFromCart (Num 2) (addToCart (Num 1) (addToCart (Num 1) shop)))
       = [\<lparr>product = mug, quantity = 2\<rparr>]
   \<and> getCartTotal (removeFromCart (Num 2) (addToCart (Num 1) (addToCart (Num 1) shop)))
       = getCartTotal (addToCart (Num 1) (addToCart (Num 1) shop))
   \<and> getCartItemCount (removeFromCart (Num 2) (addToCart (Num 1) (addToCart (Num 1) shop)))
       = getCartItemCount (addToCart (Num 1) (addToCart (Num 1) shop))
   \<and> changeQuantity (Num 2) 5 (addToCart (Num 1) (addToCart (Num 1) shop))
       = addToCart (Num 1) (addToCart (Num 1) shop)
   \<and> getById (Num 3) (addToCart (Num 1) (addToCart (Num 1) shop)) = None
   \<and> addToCart (Num 3) (addToCart (Num 1) (addToCart (Num 1) shop))
       = addToCart (Num 1) (addToCart (Num 1) shop)"
proof -
  let ?s = "addToCart (Num 1) (addToCart (Num 1) shop)"
  have l: "lines ?s = [\<lparr>product = mug, quantity = 2\<rparr>]" by (rule lines_two_mugs_shop)
  have "\<forall>l\<in>set [\<lparr>product = mug, quantity = 2\<rparr>]. id' (product l) \<noteq> Num 2"
    by (simp add: mug_def new_Product_def)
  then have a: "\<forall>l\<in>set (lines ?s). id' (product l) \<noteq> Num 2" by (simp only: l)
  have g: "getById (Num 3) ?s = None"
    by (simp add: shop_eq init_def addToCart_def getById_def addItem_new_def new_CartItem_def
        addItem_def mug_def pen_def new_Product_def)
  from absent_id_is_no_op [of ?s "Num 2" 5] a
  have "lines (removeFromCart (Num 2) ?s) = lines ?s
       \<and> getCartTotal (removeFromCart (Num 2) ?s) = getCartTotal ?s
       \<and> getCartItemCount (removeFromCart (Num 2) ?s) = getCartItemCount ?s
       \<and> changeQuantity (Num 2) 5 ?s = ?s"
    by blast
  moreover from absent_id_is_no_op [of ?s "Num 3"] g have "addToCart (Num 3) ?s = ?s" by blast
  ultimately show ?thesis using l g by (simp only:) 
qed

section \<open>Order of the lines\<close>

lemma first_at_index:
  assumes "k < length ls" and "\<forall>j<k. \<not> P (ls ! j)"
  shows "ls = take k ls @ ls ! k # drop (Suc k) ls \<and> (\<forall>x\<in>set (take k ls). \<not> P x)"
proof
  from assms(1) show "ls = take k ls @ ls ! k # drop (Suc k) ls"
    by (rule id_take_nth_drop)
  show "\<forall>x\<in>set (take k ls). \<not> P x"
  proof
    fix x
    assume "x \<in> set (take k ls)"
    then obtain j where "j < length (take k ls)" "take k ls ! j = x"
      by (auto simp: in_set_conv_nth)
    with assms show "\<not> P x" by auto
  qed
qed

lemma lines_run_AddItem:
  assumes "wf_state s" and "distinct (map id' ps)"
    and "\<forall>l\<in>set (lines s). id' (product l) \<notin> set (map id' ps)"
  shows "lines (run (map AddItem ps) s) = lines s @ map (\<lambda>p. \<lparr>product = p, quantity = 1\<rparr>) ps"
  using assms
proof (induction ps arbitrary: s)
  case Nil
  then show ?case by simp
next
  case (Cons p ps)
  from Cons.prems(3) have a: "\<forall>l\<in>set (lines s). id' (product l) \<noteq> id' p" by auto
  have l: "lines (addItem_new p s) = lines s @ [\<lparr>product = p, quantity = 1\<rparr>]"
    using Cons.prems(1) a by (rule lines_addItem_new_absent)
  have w: "wf_state (addItem_new p s)" using Cons.prems(1) by (rule wf_addItem_new)
  have d: "distinct (map id' ps)" using Cons.prems(2) by simp
  have n: "\<forall>l\<in>set (lines (addItem_new p s)). id' (product l) \<notin> set (map id' ps)"
    using Cons.prems(2,3) l by auto
  from Cons.IH [OF w d n] l show ?case by simp
qed

text \<open>
  C8. The caller of \<^verbatim>\<open>getItems()\<close> reads the lines in the order of the array. In every
  well-formed state: adding a product whose id has a line, or adjusting a quantity to a
  positive result, replaces that line at its index by the same line with the new
  quantity and changes nothing else; adding a product whose id has no line appends the
  new line at the end; removing an id (directly, or by adjusting to 0 or less) filters
  the sequence, so the lines that stay keep their relative order; and adding products of
  distinct ids to an empty cart gives their lines in the order they were added.
\<close>

theorem line_order_is_stable:
  assumes "wf_state s"
  shows "(\<forall>k. k < length (lines s) \<and> id' (product (lines s ! k)) = id' p
              \<and> (\<forall>j<k. id' (product (lines s ! j)) \<noteq> id' p)
            \<longrightarrow> lines (addItem_new p s)
                  = (lines s)[k := (lines s ! k)\<lparr>quantity := quantity (lines s ! k) + 1\<rparr>])
       \<and> ((\<forall>l\<in>set (lines s). id' (product l) \<noteq> id' p)
            \<longrightarrow> lines (addItem_new p s) = lines s @ [\<lparr>product = p, quantity = 1\<rparr>])
       \<and> (\<forall>k. k < length (lines s) \<and> id' (product (lines s ! k)) = i
              \<and> (\<forall>j<k. id' (product (lines s ! j)) \<noteq> i)
            \<longrightarrow> (0 < quantity (lines s ! k) + d
                  \<longrightarrow> lines (updateQuantity i d s)
                        = (lines s)[k := (lines s ! k)\<lparr>quantity := quantity (lines s ! k) + d\<rparr>])
                \<and> (quantity (lines s ! k) + d \<le> 0
                  \<longrightarrow> lines (updateQuantity i d s)
                        = filter (\<lambda>l. id' (product l) \<noteq> i) (lines s)))
       \<and> lines (removeItem i s) = filter (\<lambda>l. id' (product l) \<noteq> i) (lines s)
       \<and> (lines s = [] \<and> distinct (map id' ps)
            \<longrightarrow> lines (run (map AddItem ps) s) = map (\<lambda>p. \<lparr>product = p, quantity = 1\<rparr>) ps)"
proof (intro conjI allI impI)
  fix k
  assume a: "k < length (lines s) \<and> id' (product (lines s ! k)) = id' p
              \<and> (\<forall>j<k. id' (product (lines s ! j)) \<noteq> id' p)"
  let ?ls = "lines s"
  from a first_at_index [of k ?ls "\<lambda>l. id' (product l) = id' p"]
  have d: "?ls = take k ?ls @ ?ls ! k # drop (Suc k) ?ls"
    and n: "\<forall>x\<in>set (take k ?ls). id' (product x) \<noteq> id' p" by blast+
  from a have e: "id' (product (?ls ! k)) = id' p" by blast
  from lines_addItem_new_present [OF assms d e n] a
  show "lines (addItem_new p s) = ?ls[k := (?ls ! k)\<lparr>quantity := quantity (?ls ! k) + 1\<rparr>]"
    by (simp add: upd_conv_take_nth_drop)
next
  assume "\<forall>l\<in>set (lines s). id' (product l) \<noteq> id' p"
  with assms show "lines (addItem_new p s) = lines s @ [\<lparr>product = p, quantity = 1\<rparr>]"
    by (rule lines_addItem_new_absent)
next
  fix k
  assume a: "k < length (lines s) \<and> id' (product (lines s ! k)) = i
              \<and> (\<forall>j<k. id' (product (lines s ! j)) \<noteq> i)"
  let ?ls = "lines s"
  from a first_at_index [of k ?ls "\<lambda>l. id' (product l) = i"]
  have d: "?ls = take k ?ls @ ?ls ! k # drop (Suc k) ?ls"
    and n: "\<forall>x\<in>set (take k ?ls). id' (product x) \<noteq> i" by blast+
  from a have e: "id' (product (?ls ! k)) = i" by blast
  note u = lines_updateQuantity_present [OF assms d e n, of d]
  {
    assume "0 < quantity (?ls ! k) + d"
    with u a show "lines (updateQuantity i d s)
        = ?ls[k := (?ls ! k)\<lparr>quantity := quantity (?ls ! k) + d\<rparr>]"
      by (simp add: upd_conv_take_nth_drop)
  }
  assume neg: "quantity (?ls ! k) + d \<le> 0"
  have "filter (\<lambda>l. id' (product l) \<noteq> i) ?ls
        = filter (\<lambda>l. id' (product l) \<noteq> i) (take k ?ls @ ?ls ! k # drop (Suc k) ?ls)"
    using d by simp
  also have "\<dots> = take k ?ls @ filter (\<lambda>l. id' (product l) \<noteq> i) (drop (Suc k) ?ls)"
    using n e by (simp add: filter_id_conv)
  finally show "lines (updateQuantity i d s) = filter (\<lambda>l. id' (product l) \<noteq> i) ?ls"
    using u neg by simp
next
  show "lines (removeItem i s) = filter (\<lambda>l. id' (product l) \<noteq> i) (lines s)"
    by (rule lines_removeItem)
next
  assume a: "lines s = [] \<and> distinct (map id' ps)"
  then have "\<forall>l\<in>set (lines s). id' (product l) \<notin> set (map id' ps)" by simp
  with lines_run_AddItem [OF assms, of ps] a
  show "lines (run (map AddItem ps) s) = map (\<lambda>p. \<lparr>product = p, quantity = 1\<rparr>) ps"
    by simp
qed

lemma lines_pen_then_mug:
  "lines (run (map AddItem [pen, mug]) init)
   = [\<lparr>product = pen, quantity = 1\<rparr>, \<lparr>product = mug, quantity = 1\<rparr>]"
  by (simp add: init_def addItem_new_def new_CartItem_def addItem_def lines_def contents_def
      getItems_def mug_def pen_def new_Product_def)

theorem line_order_is_stable_witness:
  "wf_state (run (map AddItem [pen, mug]) init)
   \<and> lines (run (map AddItem [pen, mug]) init)
       = [\<lparr>product = pen, quantity = 1\<rparr>, \<lparr>product = mug, quantity = 1\<rparr>]
   \<and> lines (addItem_new mug (run (map AddItem [pen, mug]) init))
       = [\<lparr>product = pen, quantity = 1\<rparr>, \<lparr>product = mug, quantity = 2\<rparr>]
   \<and> lines (addItem_new (new_Product (Str ''cap'') ''Cap'' 3 ''cap.png'')
        (run (map AddItem [pen, mug]) init))
       = [\<lparr>product = pen, quantity = 1\<rparr>, \<lparr>product = mug, quantity = 1\<rparr>,
          \<lparr>product = new_Product (Str ''cap'') ''Cap'' 3 ''cap.png'', quantity = 1\<rparr>]
   \<and> lines (updateQuantity (Num 2) 3 (run (map AddItem [pen, mug]) init))
       = [\<lparr>product = pen, quantity = 4\<rparr>, \<lparr>product = mug, quantity = 1\<rparr>]
   \<and> lines (updateQuantity (Num 2) (- 1) (run (map AddItem [pen, mug]) init))
       = [\<lparr>product = mug, quantity = 1\<rparr>]
   \<and> lines (removeItem (Num 2) (run (map AddItem [pen, mug]) init))
       = [\<lparr>product = mug, quantity = 1\<rparr>]"
proof -
  let ?s = "run (map AddItem [pen, mug]) init"
  let ?cap = "new_Product (Str ''cap'') ''Cap'' 3 ''cap.png''"
  have w: "wf_state ?s" by (rule wf_run [OF wf_init])
  have i: "id' pen = Num 2" "id' mug = Num 1" "id' ?cap = Str ''cap''"
    by (simp_all add: mug_def pen_def new_Product_def)
  have "distinct (map id' [pen, mug])" by (simp add: i)
  with line_order_is_stable [OF wf_init, of _ _ _ "[pen, mug]"] lines_init
  have "lines ?s = map (\<lambda>p. \<lparr>product = p, quantity = 1\<rparr>) [pen, mug]" by blast
  then have l: "lines ?s = [\<lparr>product = pen, quantity = 1\<rparr>, \<lparr>product = mug, quantity = 1\<rparr>]"
    by (simp only: list.map)
  have "1 < length (lines ?s) \<and> id' (product (lines ?s ! 1)) = id' mug
        \<and> (\<forall>j<1. id' (product (lines ?s ! j)) \<noteq> id' mug)"
    by (simp only: l) (simp add: i)
  with line_order_is_stable [OF w, of mug]
  have "lines (addItem_new mug ?s)
        = (lines ?s)[1 := (lines ?s ! 1)\<lparr>quantity := quantity (lines ?s ! 1) + 1\<rparr>]"
    by blast
  then have a: "lines (addItem_new mug ?s)
        = [\<lparr>product = pen, quantity = 1\<rparr>, \<lparr>product = mug, quantity = 2\<rparr>]"
    by (simp only: l) simp
  have "\<forall>x\<in>set (lines ?s). id' (product x) \<noteq> id' ?cap" by (simp only: l) (simp add: i)
  with line_order_is_stable [OF w, of ?cap]
  have "lines (addItem_new ?cap ?s) = lines ?s @ [\<lparr>product = ?cap, quantity = 1\<rparr>]"
    by blast
  then have b: "lines (addItem_new ?cap ?s)
        = [\<lparr>product = pen, quantity = 1\<rparr>, \<lparr>product = mug, quantity = 1\<rparr>,
           \<lparr>product = ?cap, quantity = 1\<rparr>]"
    by (simp only: l) simp
  have f: "0 < length (lines ?s) \<and> id' (product (lines ?s ! 0)) = Num 2
        \<and> (\<forall>j<0. id' (product (lines ?s ! j)) \<noteq> Num 2)"
    by (simp only: l) (simp add: i)
  have "0 < quantity (lines ?s ! 0) + 3" by (simp only: l) simp
  with f line_order_is_stable [OF w, of _ "Num 2" 3]
  have "lines (updateQuantity (Num 2) 3 ?s)
        = (lines ?s)[0 := (lines ?s ! 0)\<lparr>quantity := quantity (lines ?s ! 0) + 3\<rparr>]"
    by blast
  then have c: "lines (updateQuantity (Num 2) 3 ?s)
        = [\<lparr>product = pen, quantity = 4\<rparr>, \<lparr>product = mug, quantity = 1\<rparr>]"
    by (simp only: l) simp
  have "quantity (lines ?s ! 0) + - 1 \<le> 0" by (simp only: l) simp
  with f line_order_is_stable [OF w, of _ "Num 2" "- 1"]
  have "lines (updateQuantity (Num 2) (- 1) ?s)
        = filter (\<lambda>l. id' (product l) \<noteq> Num 2) (lines ?s)"
    by blast
  then have d: "lines (updateQuantity (Num 2) (- 1) ?s) = [\<lparr>product = mug, quantity = 1\<rparr>]"
    by (simp only: l) (simp add: i)
  from line_order_is_stable [OF w, of _ "Num 2"]
  have "lines (removeItem (Num 2) ?s) = filter (\<lambda>l. id' (product l) \<noteq> Num 2) (lines ?s)"
    by blast
  then have e: "lines (removeItem (Num 2) ?s) = [\<lparr>product = mug, quantity = 1\<rparr>]"
    by (simp only: l) (simp add: i)
  from w l a b c d e show ?thesis by blast
qed

end
